theory Spec2Isabelle
  imports Complex_Main "HOL-Library.AList"
begin

section \<open>JavaScript values used by the payment client\<close>

text \<open>
  Strings are byte sequences: a JavaScript string is represented by its UTF-8 encoding,
  which is what \<^verbatim>\<open>Buffer.from(s)\<close> produces and what \<^verbatim>\<open>buf.toString()\<close> reads back.
  \<^verbatim>\<open>JSON.stringify\<close> and \<^verbatim>\<open>JSON.parse\<close> only treat ASCII characters specially, so on
  well-formed strings they act on the UTF-8 bytes exactly as they act on the code units.
  Strings with lone surrogates are outside the model.

  Values that come out of \<^verbatim>\<open>JSON.parse\<close> are of type \<open>json\<close>; a JavaScript value that may
  also be \<^verbatim>\<open>undefined\<close> is a \<open>json option\<close>, with \<open>None\<close> for \<^verbatim>\<open>undefined\<close>. Numbers are
  integers (chain ids, protocol versions, unix timestamps). A \<open>json\<close> value stands for
  exactly one JavaScript value when its integers are safe integers and no object key is an
  integer index (the predicate \<open>js_exact\<close> below): JavaScript rounds larger integers and
  moves index keys to the front of an object. Numbers with a fraction or an exponent have
  no representation at all; see \<open>OutsideModel\<close>.
\<close>

datatype json =
    JNull
  | JBool bool
  | JNum int
  | JStr string
  | JArr "json list"
  | JObj "(string \<times> json) list"

text \<open>
  Thrown values: the built-in errors with their message, and the error object a wallet
  provider rejects with, which carries a numeric code as well. The message of a
  \<open>SyntaxError\<close> is the engine's and is not modelled: one fixed text stands for it.

  \<open>OutsideModel\<close> is not a value the program throws. A function of the model returns it,
  with the events up to that point, where the run depends on a JSON text that the type
  \<open>json\<close> cannot represent; nothing is stated about such a run.
\<close>

datatype js_error =
    Error string
  | TypeError string
  | SyntaxError string
  | ProviderRpcError "int option" string
  | OutsideModel

fun message :: "js_error \<Rightarrow> string" where
  "message (Error m) = m"
| "message (TypeError m) = m"
| "message (SyntaxError m) = m"
| "message (ProviderRpcError c m) = m"
| "message OutsideModel = []"


fun code :: "js_error \<Rightarrow> int option" where
  "code (ProviderRpcError c m) = c"
| "code _ = None"

subsection \<open>Number formatting\<close>

definition digit_char :: "nat \<Rightarrow> char" where
  "digit_char d = (if d < 10 then char_of (48 + d) else char_of (87 + d))"

text \<open>\<^verbatim>\<open>n.toString(radix)\<close> for a non-negative integer and a radix from 2 to 16.\<close>

function toString_radix :: "nat \<Rightarrow> nat \<Rightarrow> string" where
  "toString_radix b n =
     (if n < b \<or> b < 2 then [digit_char n]
      else toString_radix b (n div b) @ [digit_char (n mod b)])"
  by pat_completeness auto
termination
  by (relation "measure (\<lambda>(b, n). n)") auto

declare toString_radix.simps [simp del]

definition String_nat :: "nat \<Rightarrow> string" where
  "String_nat n = toString_radix 10 n"

text \<open>
  \<^verbatim>\<open>String(n)\<close> for an integer below \<open>10\<^sup>2\<^sup>1\<close> in size, as every safe integer is; from there on
  JavaScript prints a number with an exponent.
\<close>

definition String_int :: "int \<Rightarrow> string" where
  "String_int i = (if i < 0 then CHR ''-'' # String_nat (nat (- i)) else String_nat (nat i))"

text \<open>\<^verbatim>\<open>s.padStart(n, '0')\<close>: pads on the left, never truncates.\<close>

definition padStart :: "nat \<Rightarrow> char \<Rightarrow> string \<Rightarrow> string" where
  "padStart n c s = replicate (n - length s) c @ s"

text \<open>\<^verbatim>\<open>s.toLowerCase()\<close> on the ASCII letters.\<close>

definition lower_char :: "char \<Rightarrow> char" where
  "lower_char c =
     (let n = (of_char c :: nat) in if 65 \<le> n \<and> n \<le> 90 then char_of (n + 32) else c)"

definition toLowerCase :: "string \<Rightarrow> string" where
  "toLowerCase s = map lower_char s"

subsection \<open>Truthiness, property access and String()\<close>

fun truthy :: "json option \<Rightarrow> bool" where
  "truthy None = False"
| "truthy (Some JNull) = False"
| "truthy (Some (JBool b)) = b"
| "truthy (Some (JNum n)) = (n \<noteq> 0)"
| "truthy (Some (JStr s)) = (s \<noteq> [])"
| "truthy (Some (JArr xs)) = True"
| "truthy (Some (JObj ms)) = True"

text \<open>
  \<^verbatim>\<open>v.k\<close> for a value \<open>v\<close> that is neither \<^verbatim>\<open>null\<close> nor \<^verbatim>\<open>undefined\<close> and a property name
  \<open>k\<close> that is not a member of a built-in prototype (the client only reads \<^verbatim>\<open>accepts\<close>,
  \<^verbatim>\<open>asset\<close>, \<^verbatim>\<open>payTo\<close>, \<^verbatim>\<open>maxAmountRequired\<close>, \<^verbatim>\<open>network\<close>, \<^verbatim>\<open>payload\<close>,
  \<^verbatim>\<open>authorization\<close>, \<^verbatim>\<open>from\<close>, \<^verbatim>\<open>to\<close>, \<^verbatim>\<open>payUrl\<close> and \<^verbatim>\<open>invoice\<close>): an own property
  of an object, \<^verbatim>\<open>undefined\<close> on anything else.
\<close>

fun js_prop :: "json \<Rightarrow> string \<Rightarrow> json option" where
  "js_prop (JObj ms) k = map_of ms k"
| "js_prop _ k = None"

text \<open>Reading a property of \<^verbatim>\<open>null\<close> throws a TypeError.\<close>

definition null_read :: "string \<Rightarrow> js_error" where
  "null_read k = TypeError (''Cannot read properties of null (reading '' @ [CHR 0x27] @ k @ [CHR 0x27] @ '')'')"

definition undefined_read :: "string \<Rightarrow> js_error" where
  "undefined_read k =
     TypeError (''Cannot read properties of undefined (reading '' @ [CHR 0x27] @ k @ [CHR 0x27] @ '')'')"

definition get_prop :: "json option \<Rightarrow> string \<Rightarrow> js_error + json option" where
  "get_prop v k =
     (case v of
        None \<Rightarrow> Inl (undefined_read k)
      | Some JNull \<Rightarrow> Inl (null_read k)
      | Some j \<Rightarrow> Inr (js_prop j k))"


text \<open>An object literal: a property whose value is \<^verbatim>\<open>undefined\<close> is not serialised.\<close>

fun defined_props :: "(string \<times> json option) list \<Rightarrow> (string \<times> json) list" where
  "defined_props [] = []"
| "defined_props ((k, None) # ps) = defined_props ps"
| "defined_props ((k, Some v) # ps) = (k, v) # defined_props ps"

text \<open>\<^verbatim>\<open>String(v)\<close>; inside \<^verbatim>\<open>Array.prototype.join\<close>, \<^verbatim>\<open>null\<close> is the empty string.\<close>

fun intersperse :: "string \<Rightarrow> string list \<Rightarrow> string" where
  "intersperse sep [] = []"
| "intersperse sep [x] = x"
| "intersperse sep (x # y # xs) = x @ sep @ intersperse sep (y # xs)"

fun String_json :: "json \<Rightarrow> string" where
  "String_json JNull = ''null''"
| "String_json (JBool b) = (if b then ''true'' else ''false'')"
| "String_json (JNum n) = String_int n"
| "String_json (JStr s) = s"
| "String_json (JArr xs) =
     intersperse '','' (map (\<lambda>x. case x of JNull \<Rightarrow> [] | _ \<Rightarrow> String_json x) xs)"
| "String_json (JObj ms) = ''[object Object]''"

definition String_js :: "json option \<Rightarrow> string" where
  "String_js v = (case v of None \<Rightarrow> ''undefined'' | Some j \<Rightarrow> String_json j)"

subsection \<open>JSON.stringify\<close>

definition hex_byte :: "nat \<Rightarrow> string" where
  "hex_byte n = [digit_char (n div 16), digit_char (n mod 16)]"

definition escape_char :: "char \<Rightarrow> string" where
  "escape_char c =
     (let n = (of_char c :: nat) in
      if n = 0x22 then [CHR 0x5C, CHR 0x22]
      else if n = 0x5C then [CHR 0x5C, CHR 0x5C]
      else if n = 0x08 then [CHR 0x5C, CHR ''b'']
      else if n = 0x0C then [CHR 0x5C, CHR ''f'']
      else if n = 0x0A then [CHR 0x5C, CHR ''n'']
      else if n = 0x0D then [CHR 0x5C, CHR ''r'']
      else if n = 0x09 then [CHR 0x5C, CHR ''t'']
      else if n < 0x20 then [CHR 0x5C, CHR ''u'', CHR ''0'', CHR ''0''] @ hex_byte n
      else [c])"

definition quote_json :: "string \<Rightarrow> string" where
  "quote_json s = CHR 0x22 # concat (map escape_char s) @ [CHR 0x22]"

text \<open>
  \<^verbatim>\<open>JSON.stringify(v)\<close> with no indentation. Object members are written in the order of the
  association list (insertion order; keys that look like array indices, which JavaScript
  moves to the front, do not occur in the client's objects).
\<close>

fun stringify :: "json \<Rightarrow> string"
  and stringify_elems :: "json list \<Rightarrow> string"
  and stringify_members :: "(string \<times> json) list \<Rightarrow> string" where
  "stringify JNull = ''null''"
| "stringify (JBool b) = (if b then ''true'' else ''false'')"
| "stringify (JNum n) = String_int n"
| "stringify (JStr s) = quote_json s"
| "stringify (JArr xs) = CHR ''['' # stringify_elems xs"
| "stringify (JObj ms) = CHR ''{'' # stringify_members ms"
| "stringify_elems [] = '']''"
| "stringify_elems [x] = stringify x @ '']''"
| "stringify_elems (x # y # xs) = stringify x @ CHR '','' # stringify_elems (y # xs)"
| "stringify_members [] = ''}''"
| "stringify_members [(k, v)] = quote_json k @ CHR '':'' # stringify v @ ''}''"
| "stringify_members ((k, v) # m # ms) =
     quote_json k @ CHR '':'' # stringify v @ CHR '','' # stringify_members (m # ms)"

subsection \<open>JSON.parse\<close>

definition is_ws :: "char \<Rightarrow> bool" where
  "is_ws c = (c = CHR '' '' \<or> c = CHR 0x09 \<or> c = CHR 0x0A \<or> c = CHR 0x0D)"

definition skip_ws :: "string \<Rightarrow> string" where
  "skip_ws cs = dropWhile is_ws cs"

definition hex_val :: "char \<Rightarrow> nat option" where
  "hex_val c =
     (let n = (of_char c :: nat) in
      if 48 \<le> n \<and> n \<le> 57 then Some (n - 48)
      else if 97 \<le> n \<and> n \<le> 102 then Some (n - 87)
      else if 65 \<le> n \<and> n \<le> 70 then Some (n - 55)
      else None)"

text \<open>
  The UTF-8 bytes of a code point of the basic plane. An escaped surrogate has no value in
  the model: the result is \<open>None\<close> here, and \<open>JSON_parse\<close> reports the text as \<open>OutsideModel\<close>.
\<close>

definition utf8 :: "nat \<Rightarrow> string option" where
  "utf8 n =
     (if n < 0x80 then Some [char_of n]
      else if n < 0x800 then Some [char_of (0xC0 + n div 64), char_of (0x80 + n mod 64)]
      else if 0xD800 \<le> n \<and> n < 0xE000 then None
      else Some [char_of (0xE0 + n div 4096), char_of (0x80 + (n div 64) mod 64),
                 char_of (0x80 + n mod 64)])"

definition unescape :: "char \<Rightarrow> char option" where
  "unescape e =
     (if e = CHR 0x22 then Some (CHR 0x22)
      else if e = CHR 0x5C then Some (CHR 0x5C)
      else if e = CHR ''/'' then Some (CHR ''/'')
      else if e = CHR ''b'' then Some (CHR 0x08)
      else if e = CHR ''f'' then Some (CHR 0x0C)
      else if e = CHR ''n'' then Some (CHR 0x0A)
      else if e = CHR ''r'' then Some (CHR 0x0D)
      else if e = CHR ''t'' then Some (CHR 0x09)
      else None)"

definition hex4 :: "char \<Rightarrow> char \<Rightarrow> char \<Rightarrow> char \<Rightarrow> nat option" where
  "hex4 a b c d =
     (case (hex_val a, hex_val b, hex_val c, hex_val d) of
        (Some x, Some y, Some z, Some w) \<Rightarrow> Some (((x * 16 + y) * 16 + z) * 16 + w)
      | _ \<Rightarrow> None)"

text \<open>The characters of a string literal after its opening quote, and what follows it.\<close>

fun parse_string :: "string \<Rightarrow> (string \<times> string) option" where
  "parse_string [] = None"
| "parse_string (c # cs) =
     (if c = CHR 0x22 then Some ([], cs)
      else if c = CHR 0x5C then
        (case cs of
           [] \<Rightarrow> None
         | e # r \<Rightarrow>
             if e = CHR ''u'' then
               (case r of
                  h1 # h2 # h3 # h4 # r' \<Rightarrow>
                    (case hex4 h1 h2 h3 h4 of
                       None \<Rightarrow> None
                     | Some n \<Rightarrow>
                         (case utf8 n of
                            None \<Rightarrow> None
                          | Some bs \<Rightarrow>
                              (case parse_string r' of
                                 None \<Rightarrow> None
                               | Some (s, rest) \<Rightarrow> Some (bs @ s, rest))))
                | _ \<Rightarrow> None)
             else
               (case unescape e of
                  None \<Rightarrow> None
                | Some ch \<Rightarrow>
                    (case parse_string r of
                       None \<Rightarrow> None
                     | Some (s, rest) \<Rightarrow> Some (ch # s, rest))))
      else if (of_char c :: nat) < 0x20 then None
      else
        (case parse_string cs of
           None \<Rightarrow> None
         | Some (s, rest) \<Rightarrow> Some (c # s, rest)))"

definition is_digit :: "char \<Rightarrow> bool" where
  "is_digit c = (48 \<le> (of_char c :: nat) \<and> (of_char c :: nat) \<le> 57)"

definition digits_val :: "string \<Rightarrow> nat" where
  "digits_val ds = foldl (\<lambda>a c. 10 * a + (of_char c - 48)) 0 ds"

text \<open>
  An integer literal. A literal with a fraction or an exponent has no value in the model:
  the result is \<open>None\<close> here, and \<open>JSON_parse\<close> reports the text as \<open>OutsideModel\<close>.
\<close>

definition parse_number :: "string \<Rightarrow> (json \<times> string) option" where
  "parse_number cs =
     (let neg = (case cs of c # _ \<Rightarrow> c = CHR ''-'' | [] \<Rightarrow> False);
          r = (if neg then tl cs else cs);
          ds = takeWhile is_digit r;
          rest = dropWhile is_digit r
      in if ds = [] then None
         else if 1 < length ds \<and> hd ds = CHR ''0'' then None
         else if (case rest of c # _ \<Rightarrow> c = CHR ''.'' \<or> c = CHR ''e'' \<or> c = CHR ''E'' | [] \<Rightarrow> False)
           then None
         else Some (JNum (if neg then - int (digits_val ds) else int (digits_val ds)), rest))"

text \<open>
  Object spread \<^verbatim>\<open>{...target, ...src}\<close>: every property of \<open>src\<close> is assigned in order; an
  assignment to an existing key replaces its value in place, a new key is added at the end.
\<close>

definition spread :: "('k \<times> 'v) list \<Rightarrow> ('k \<times> 'v) list \<Rightarrow> ('k \<times> 'v) list" where
  "spread target src = fold (\<lambda>(k, v) acc. AList.update k v acc) src target"

text \<open>
  A later member with the same key overrides an earlier one. The members keep the order of
  the text, as JavaScript keeps it for keys that are not integer indices.
\<close>

definition obj_of_members :: "(string \<times> json) list \<Rightarrow> (string \<times> json) list" where
  "obj_of_members ms = spread [] ms"

text \<open>
  The recursive-descent parser. The first argument bounds the number of nested calls; the
  length of the text is always enough (see \<open>JSON_parse\<close>).
\<close>

fun parse_value :: "nat \<Rightarrow> string \<Rightarrow> (json \<times> string) option"
  and parse_elems :: "nat \<Rightarrow> string \<Rightarrow> (json list \<times> string) option"
  and parse_members :: "nat \<Rightarrow> string \<Rightarrow> ((string \<times> json) list \<times> string) option" where
  "parse_value 0 cs = None"
| "parse_value (Suc n) cs =
     (case skip_ws cs of
        [] \<Rightarrow> None
      | c # r \<Rightarrow>
          if c = CHR ''n'' then (if take 3 r = ''ull'' then Some (JNull, drop 3 r) else None)
          else if c = CHR ''t'' then
            (if take 3 r = ''rue'' then Some (JBool True, drop 3 r) else None)
          else if c = CHR ''f'' then
            (if take 4 r = ''alse'' then Some (JBool False, drop 4 r) else None)
          else if c = CHR 0x22 then
            (case parse_string r of None \<Rightarrow> None | Some (s, r') \<Rightarrow> Some (JStr s, r'))
          else if c = CHR ''['' then
            (case skip_ws r of
               [] \<Rightarrow> None
             | d # r' \<Rightarrow>
                 if d = CHR '']'' then Some (JArr [], r')
                 else (case parse_elems n r of
                         None \<Rightarrow> None
                       | Some (xs, r'') \<Rightarrow> Some (JArr xs, r'')))
          else if c = CHR ''{'' then
            (case skip_ws r of
               [] \<Rightarrow> None
             | d # r' \<Rightarrow>
                 if d = CHR ''}'' then Some (JObj [], r')
                 else (case parse_members n r of
                         None \<Rightarrow> None
                       | Some (ms, r'') \<Rightarrow> Some (JObj (obj_of_members ms), r'')))
          else parse_number (c # r))"
| "parse_elems 0 cs = None"
| "parse_elems (Suc n) cs =
     (case parse_value n cs of
        None \<Rightarrow> None
      | Some (x, r) \<Rightarrow>
          (case skip_ws r of
             [] \<Rightarrow> None
           | d # r' \<Rightarrow>
               if d = CHR '','' then
                 (case parse_elems n r' of
                    None \<Rightarrow> None
                  | Some (xs, r'') \<Rightarrow> Some (x # xs, r''))
               else if d = CHR '']'' then Some ([x], r')
               else None))"
| "parse_members 0 cs = None"
| "parse_members (Suc n) cs =
     (case skip_ws cs of
        [] \<Rightarrow> None
      | q # r \<Rightarrow>
          if q \<noteq> CHR 0x22 then None
          else
            (case parse_string r of
               None \<Rightarrow> None
             | Some (k, r1) \<Rightarrow>
                 (case skip_ws r1 of
                    [] \<Rightarrow> None
                  | c # r2 \<Rightarrow>
                      if c \<noteq> CHR '':'' then None
                      else
                        (case parse_value n r2 of
                           None \<Rightarrow> None
                         | Some (v, r3) \<Rightarrow>
                             (case skip_ws r3 of
                                [] \<Rightarrow> None
                              | d # r4 \<Rightarrow>
                                  if d = CHR '','' then
                                    (case parse_members n r4 of
                                       None \<Rightarrow> None
                                     | Some (ms, r5) \<Rightarrow> Some ((k, v) # ms, r5))
                                  else if d = CHR ''}'' then Some ([(k, v)], r4)
                                  else None)))))"

text \<open>
  A text the parser above may fail on although it is JSON: it has a digit followed by a
  fraction or an exponent mark, an escape \<^verbatim>\<open>\ud...\<close> of a surrogate, or a byte that is not
  ASCII (a byte-order mark, or bytes that the UTF-8 decoder would replace).
\<close>

fun beyond_model :: "string \<Rightarrow> bool" where
  "beyond_model [] = False"
| "beyond_model (a # cs) =
     ((is_digit a \<and> (case cs of b # _ \<Rightarrow> b = CHR ''.'' \<or> b = CHR ''e'' \<or> b = CHR ''E'' | [] \<Rightarrow> False))
      \<or> (a = CHR 0x5C
          \<and> (case cs of b # c # _ \<Rightarrow> b = CHR ''u'' \<and> (c = CHR ''d'' \<or> c = CHR ''D'') | _ \<Rightarrow> False))
      \<or> 128 \<le> (of_char a :: nat)
      \<or> beyond_model cs)"

text \<open>
  \<^verbatim>\<open>JSON.parse(s)\<close>. When the parser fails, the text is malformed and \<^verbatim>\<open>JSON.parse\<close> throws
  a SyntaxError, unless the text is one of those the parser cannot read; then the result is
  \<open>OutsideModel\<close>.
\<close>

definition JSON_parse :: "string \<Rightarrow> js_error + json" where
  "JSON_parse s =
     (case parse_value (Suc (length s)) s of
        None \<Rightarrow>
          if beyond_model s then Inl OutsideModel
          else Inl (SyntaxError ''Unexpected token in JSON'')
      | Some (j, rest) \<Rightarrow>
          if skip_ws rest = [] then Inr j
          else if beyond_model s then Inl OutsideModel
          else Inl (SyntaxError ''Unexpected token in JSON''))"

subsection \<open>Base64\<close>

definition b64_char :: "nat \<Rightarrow> char" where
  "b64_char n =
     (if n < 26 then char_of (65 + n)
      else if n < 52 then char_of (71 + n)
      else if n < 62 then char_of (n - 4)
      else if n = 62 then CHR ''+''
      else CHR ''/'')"

definition b64_val :: "char \<Rightarrow> nat option" where
  "b64_val c =
     (let n = (of_char c :: nat) in
      if 65 \<le> n \<and> n \<le> 90 then Some (n - 65)
      else if 97 \<le> n \<and> n \<le> 122 then Some (n - 71)
      else if 48 \<le> n \<and> n \<le> 57 then Some (n + 4)
      else if c = CHR ''+'' then Some 62
      else if c = CHR ''/'' then Some 63
      else None)"

text \<open>\<^verbatim>\<open>Buffer.from(s).toString('base64')\<close>: three bytes become four characters, padded with \<^verbatim>\<open>=\<close>.\<close>

fun base64_encode :: "string \<Rightarrow> string" where
  "base64_encode [] = []"
| "base64_encode [a] =
     (let x = (of_char a :: nat) in
      [b64_char (x div 4), b64_char ((x mod 4) * 16), CHR ''='', CHR ''=''])"
| "base64_encode [a, b] =
     (let x = (of_char a :: nat); y = (of_char b :: nat) in
      [b64_char (x div 4), b64_char ((x mod 4) * 16 + y div 16), b64_char ((y mod 16) * 4),
       CHR ''=''])"
| "base64_encode (a # b # c # r) =
     (let x = (of_char a :: nat); y = (of_char b :: nat); z = (of_char c :: nat) in
      [b64_char (x div 4), b64_char ((x mod 4) * 16 + y div 16),
       b64_char ((y mod 16) * 4 + z div 64), b64_char (z mod 64)] @ base64_encode r)"

fun from_sextets :: "nat list \<Rightarrow> string" where
  "from_sextets (p # q # r # s # rest) =
     [char_of (p * 4 + q div 16), char_of ((q mod 16) * 16 + r div 4),
      char_of ((r mod 4) * 64 + s)] @ from_sextets rest"
| "from_sextets [p, q, r] = [char_of (p * 4 + q div 16), char_of ((q mod 16) * 16 + r div 4)]"
| "from_sextets [p, q] = [char_of (p * 4 + q div 16)]"
| "from_sextets _ = []"

text \<open>
  \<^verbatim>\<open>Buffer.from(s, 'base64').toString()\<close>: the decoder reads the characters of the alphabet
  up to the padding and drops an incomplete group.
\<close>

fun sextets :: "string \<Rightarrow> nat list" where
  "sextets [] = []"
| "sextets (c # cs) = (case b64_val c of None \<Rightarrow> [] | Some v \<Rightarrow> v # sextets cs)"

definition base64_decode :: "string \<Rightarrow> string" where
  "base64_decode s = from_sextets (sextets s)"

section \<open>The environment: wallet provider, network, clock and randomness\<close>

datatype receipt = Receipt (receipt_status: "string option")

datatype eth_call =
    Eth_chainId
  | Wallet_switchEthereumChain string
  | Wallet_addEthereumChain json
  | Eth_signTypedData_v4 string string
  | Eth_accounts
  | Eth_requestAccounts
  | Eth_sendTransaction json
  | Eth_getTransactionReceipt string

text \<open>
  \<^verbatim>\<open>window.ethereum.request({method, params})\<close>, one field for each request the client makes,
  with the result type of the provider interface. A request resolves (\<open>Inr\<close>) or rejects
  (\<open>Inl\<close>). The receipt query is asked repeatedly; its first argument is the number of
  queries already made.
\<close>

record wallet =
  eth_chainId :: "js_error + string"
  wallet_switchEthereumChain :: "string \<Rightarrow> js_error + unit"
  wallet_addEthereumChain :: "json \<Rightarrow> js_error + unit"
  eth_signTypedData_v4 :: "string \<Rightarrow> string \<Rightarrow> js_error + string"
  eth_accounts :: "js_error + string list"
  eth_requestAccounts :: "js_error + string list"
  eth_sendTransaction :: "json \<Rightarrow> js_error + string"
  eth_getTransactionReceipt :: "nat \<Rightarrow> string \<Rightarrow> js_error + receipt option"

record RequestInit =
  http_method :: "string option"
  headers :: "(string \<times> string) list option"
  body :: "string option"

record response =
  status :: nat
  body_text :: string

definition ok :: "response \<Rightarrow> bool" where
  "ok r = (200 \<le> status r \<and> status r \<le> 299)"

text \<open>
  \<^verbatim>\<open>fetch(input, init)\<close> resolves with a response or rejects; its first argument is the number
  of requests already issued by the running call. \<open>ethereum\<close> is \<open>None\<close> when there is no
  \<^verbatim>\<open>window\<close> or no injected provider. \<open>now\<close> is \<^verbatim>\<open>Date.now()\<close> in milliseconds and \<open>random i\<close>
  the \<open>i\<close>-th value \<^verbatim>\<open>crypto.getRandomValues\<close> delivers.
\<close>

record world =
  ethereum :: "wallet option"
  fetch :: "nat \<Rightarrow> string \<Rightarrow> RequestInit option \<Rightarrow> js_error + response"
  now :: nat
  random :: "nat \<Rightarrow> nat"
  NEXT_PUBLIC_BROKER_API_URL :: "string option"
  NEXT_PUBLIC_HTTPAYER_RELAY :: "string option"

text \<open>What a call does to the outside, in order.\<close>

datatype event =
    Fetch string "RequestInit option"
  | Request eth_call
  | Sleep nat

section \<open>The x402 payment client\<close>

record PaymentInfo =
  network :: "json option"
  spender :: "json option"
  asset :: "json option"
  userAddress :: "json option"

subsection \<open>getChainIdFromNetwork\<close>

definition chainIds :: "(string \<times> nat) list" where
  "chainIds =
     [(''avalanche'', 43114),
      (''avalanche-c'', 43114),
      (''avalanche-c-chain'', 43114),
      (''avax'', 43114),
      (''base'', 8453),
      (''base-mainnet'', 8453),
      (''base-sepolia'', 84532),
      (''ethereum'', 1),
      (''eth-mainnet'', 1),
      (''polygon'', 137),
      (''polygon-mainnet'', 137),
      (''arbitrum'', 42161),
      (''optimism'', 10)]"

text \<open>
  The table is a plain object, so the two lower-case member names of \<^verbatim>\<open>Object.prototype\<close>
  are found on it as well, and what they hold is truthy and not a number.
\<close>

datatype chain_lookup = ChainId nat | ObjectPrototypeMember string

definition getChainIdFromNetwork :: "string \<Rightarrow> chain_lookup" where
  "getChainIdFromNetwork network' =
     (let k = toLowerCase network' in
      case map_of chainIds k of
        Some n \<Rightarrow> if n \<noteq> 0 then ChainId n else ChainId 43114
      | None \<Rightarrow>
          if k = ''constructor'' \<or> k = ''__proto__'' then ObjectPrototypeMember k
          else ChainId 43114)"

subsection \<open>signWithMetaMask\<close>

definition targetChainId :: nat where
  "targetChainId = 43114"

definition targetChainIdHex :: string where
  "targetChainIdHex = ''0x'' @ toString_radix 16 targetChainId"

definition addChainParams :: json where
  "addChainParams =
     JObj [(''chainId'', JStr targetChainIdHex),
           (''chainName'', JStr ''Avalanche C-Chain''),
           (''nativeCurrency'',
              JObj [(''name'', JStr ''AVAX''), (''symbol'', JStr ''AVAX''), (''decimals'', JNum 18)]),
           (''rpcUrls'', JArr [JStr ''https://api.avax.network/ext/bc/C/rpc'']),
           (''blockExplorerUrls'', JArr [JStr ''https://snowtrace.io/''])]"

text \<open>The network check at the head of the \<^verbatim>\<open>try\<close> block.\<close>

definition switchNetwork :: "wallet \<Rightarrow> (js_error + unit) \<times> event list" where
  "switchNetwork eth =
     (case eth_chainId eth of
        Inl e \<Rightarrow> (Inl e, [Request Eth_chainId])
      | Inr currentChainId \<Rightarrow>
          if currentChainId \<noteq> targetChainIdHex then
            (case wallet_switchEthereumChain eth targetChainIdHex of
               Inr u \<Rightarrow>
                 (Inr (), [Request Eth_chainId, Request (Wallet_switchEthereumChain targetChainIdHex)])
             | Inl switchError \<Rightarrow>
                 if code switchError = Some 4902 then
                   (case wallet_addEthereumChain eth addChainParams of
                      Inr u \<Rightarrow>
                        (Inr (),
                         [Request Eth_chainId,
                          Request (Wallet_switchEthereumChain targetChainIdHex),
                          Request (Wallet_addEthereumChain addChainParams)])
                    | Inl e \<Rightarrow>
                        (Inl e,
                         [Request Eth_chainId,
                          Request (Wallet_switchEthereumChain targetChainIdHex),
                          Request (Wallet_addEthereumChain addChainParams)]))
                 else
                   (Inl switchError,
                    [Request Eth_chainId, Request (Wallet_switchEthereumChain targetChainIdHex)]))
          else (Inr (), [Request Eth_chainId]))"

definition nonceBytes :: "world \<Rightarrow> nat list" where
  "nonceBytes w = map (\<lambda>i. random w i mod 256) [0..<32]"

definition nonce :: "world \<Rightarrow> string" where
  "nonce w = ''0x'' @ concat (map (\<lambda>b. padStart 2 (CHR ''0'') (toString_radix 16 b)) (nonceBytes w))"

definition validAfter :: "world \<Rightarrow> nat" where
  "validAfter w = now w div 1000"

definition validBefore :: "world \<Rightarrow> nat" where
  "validBefore w = validAfter w + 900"

text \<open>
  The object literals of the source, property by property; a value \<open>None\<close> is a property
  that is \<^verbatim>\<open>undefined\<close> because the payment option does not have it.
\<close>

definition domain :: "json \<Rightarrow> (string \<times> json option) list" where
  "domain paymentOption =
     [(''name'', Some (JStr ''USD Coin'')),
      (''version'', Some (JStr ''2'')),
      (''chainId'', Some (JNum (int targetChainId))),
      (''verifyingContract'', js_prop paymentOption ''asset'')]"

definition types :: json where
  "types =
     JObj [(''TransferWithAuthorization'',
        JArr [JObj [(''name'', JStr ''from''), (''type'', JStr ''address'')],
              JObj [(''name'', JStr ''to''), (''type'', JStr ''address'')],
              JObj [(''name'', JStr ''value''), (''type'', JStr ''uint256'')],
              JObj [(''name'', JStr ''validAfter''), (''type'', JStr ''uint256'')],
              JObj [(''name'', JStr ''validBefore''), (''type'', JStr ''uint256'')],
              JObj [(''name'', JStr ''nonce''), (''type'', JStr ''bytes32'')]])]"

definition auth_message :: "world \<Rightarrow> json \<Rightarrow> string \<Rightarrow> (string \<times> json option) list" where
  "auth_message w paymentOption userAddr =
     [(''from'', Some (JStr userAddr)),
      (''to'', js_prop paymentOption ''payTo''),
      (''value'', js_prop paymentOption ''maxAmountRequired''),
      (''validAfter'', Some (JNum (int (validAfter w)))),
      (''validBefore'', Some (JNum (int (validBefore w)))),
      (''nonce'', Some (JStr (nonce w)))]"

definition typedData :: "world \<Rightarrow> json \<Rightarrow> string \<Rightarrow> json" where
  "typedData w paymentOption userAddr =
     JObj [(''domain'', JObj (defined_props (domain paymentOption))),
           (''types'', types),
           (''primaryType'', JStr ''TransferWithAuthorization''),
           (''message'', JObj (defined_props (auth_message w paymentOption userAddr)))]"

definition paymentData :: "world \<Rightarrow> json \<Rightarrow> string \<Rightarrow> string \<Rightarrow> json" where
  "paymentData w paymentOption userAddr signature =
     JObj [(''x402Version'', JNum 1),
           (''scheme'', JStr ''exact''),
           (''network'', JStr ''avalanche''),
           (''payload'',
              JObj [(''signature'', JStr signature),
                    (''authorization'',
                       JObj (defined_props
                         [(''from'', Some (JStr userAddr)),
                          (''to'', js_prop paymentOption ''payTo''),
                          (''value'', Some (JStr (String_js (js_prop paymentOption ''maxAmountRequired'')))),
                          (''validAfter'', Some (JStr (String_nat (validAfter w)))),
                          (''validBefore'', Some (JStr (String_nat (validBefore w)))),
                          (''nonce'', Some (JStr (nonce w)))]))])]"

text \<open>The body of the \<^verbatim>\<open>try\<close> block: what it returns or throws, and the wallet requests made.\<close>

definition signBody :: "world \<Rightarrow> wallet \<Rightarrow> json \<Rightarrow> string \<Rightarrow> (js_error + string) \<times> event list" where
  "signBody w eth paymentOption userAddr =
     (case switchNetwork eth of
        (Inl e, evs) \<Rightarrow> (Inl e, evs)
      | (Inr u, evs) \<Rightarrow>
          (case paymentOption of
             JNull \<Rightarrow> (Inl (null_read ''asset''), evs)
           | _ \<Rightarrow>
               (let td = stringify (typedData w paymentOption userAddr);
                    evs' = evs @ [Request (Eth_signTypedData_v4 userAddr td)]
                in case eth_signTypedData_v4 eth userAddr td of
                     Inl e \<Rightarrow> (Inl e, evs')
                   | Inr signature \<Rightarrow>
                       (Inr (base64_encode (stringify (paymentData w paymentOption userAddr signature))),
                        evs'))))"

definition signWithMetaMask :: "world \<Rightarrow> json \<Rightarrow> string \<Rightarrow> (js_error + string) \<times> event list" where
  "signWithMetaMask w paymentOption userAddr =
     (case ethereum w of
        None \<Rightarrow> (Inl (Error ''MetaMask not found. Please connect your wallet first.''), [])
      | Some eth \<Rightarrow>
          (case signBody w eth paymentOption userAddr of
             (Inl e, evs) \<Rightarrow> (Inl (Error (''MetaMask payment failed: '' @ message e)), evs)
           | (Inr paymentHeader, evs) \<Rightarrow> (Inr paymentHeader, evs)))"

subsection \<open>createX402Payment\<close>

definition InvalidChallenge :: js_error where
  "InvalidChallenge = Error (''Invalid x402 payment requirements: missing '' @ [CHR 0x27] @ ''accepts'' @ [CHR 0x27] @ '' array'')"

text \<open>\<^verbatim>\<open>a.b.c\<close>: each step throws when the value before the dot is null or undefined.\<close>

fun get_path :: "json option \<Rightarrow> string list \<Rightarrow> js_error + json option" where
  "get_path v [] = Inr v"
| "get_path v (k # ks) = (case get_prop v k of Inl e \<Rightarrow> Inl e | Inr v' \<Rightarrow> get_path v' ks)"

definition decodePaymentInfo :: "json \<Rightarrow> string \<Rightarrow> js_error + PaymentInfo" where
  "decodePaymentInfo paymentOption paymentHeader =
     (case JSON_parse (base64_decode paymentHeader) of
        Inl e \<Rightarrow> Inl e
      | Inr decodedHeader \<Rightarrow>
          (case get_path (Some decodedHeader) [''network''] of
             Inl e \<Rightarrow> Inl e
           | Inr net \<Rightarrow>
               (case get_path (Some decodedHeader) [''payload'', ''authorization'', ''to''] of
                  Inl e \<Rightarrow> Inl e
                | Inr to' \<Rightarrow>
                    (case get_path (Some paymentOption) [''asset''] of
                       Inl e \<Rightarrow> Inl e
                     | Inr asset' \<Rightarrow>
                         (case get_path (Some decodedHeader) [''payload'', ''authorization'', ''from''] of
                            Inl e \<Rightarrow> Inl e
                          | Inr from' \<Rightarrow>
                              Inr \<lparr>network = net, spender = to', asset = asset',
                                   userAddress = from'\<rparr>)))))"

fun isArray :: "json option \<Rightarrow> bool" where
  "isArray (Some (JArr xs)) = True"
| "isArray _ = False"

fun elements :: "json option \<Rightarrow> json list" where
  "elements (Some (JArr xs)) = xs"
| "elements _ = []"

definition createX402Payment ::
  "world \<Rightarrow> json \<Rightarrow> string \<Rightarrow> (js_error + string \<times> PaymentInfo) \<times> event list" where
  "createX402Payment w requirements walletAddress =
     (case get_prop (Some requirements) ''accepts'' of
        Inl e \<Rightarrow> (Inl e, [])
      | Inr accepts \<Rightarrow>
          if \<not> truthy accepts \<or> \<not> isArray accepts \<or> length (elements accepts) = 0
          then (Inl InvalidChallenge, [])
          else
            (let paymentOption = hd (elements accepts) in
             case signWithMetaMask w paymentOption walletAddress of
               (Inl e, evs) \<Rightarrow> (Inl e, evs)
             | (Inr paymentHeader, evs) \<Rightarrow>
                 (case decodePaymentInfo paymentOption paymentHeader of
                    Inl e \<Rightarrow> (Inl e, evs)
                  | Inr paymentInfo \<Rightarrow> (Inr (paymentHeader, paymentInfo), evs))))"

subsection \<open>calculateRelayFee and calculateTotalAmount\<close>

text \<open>JavaScript numbers are modelled as real numbers here.\<close>

definition calculateRelayFee :: "real \<Rightarrow> real" where
  "calculateRelayFee targetAmountUSD =
     (let threePercent = targetAmountUSD * 0.03;
          minFee = 0.002
      in max threePercent minFee)"

definition calculateTotalAmount :: "real \<Rightarrow> real" where
  "calculateTotalAmount targetAmountUSD = targetAmountUSD + calculateRelayFee targetAmountUSD"

text \<open>The fee formula as the specification words it.\<close>

definition relayFee_spec :: "real \<Rightarrow> real" where
  "relayFee_spec x = max (0.03 * x) 0.002"

definition totalAmount_spec :: "real \<Rightarrow> real" where
  "totalAmount_spec x = x + relayFee_spec x"

subsection \<open>revokeApproval\<close>

text \<open>\<^verbatim>\<open>s.replace(pat, rep)\<close> with a string pattern: the first occurrence only.\<close>

fun replace_first :: "string \<Rightarrow> string \<Rightarrow> string \<Rightarrow> string" where
  "replace_first pat rep [] = (if pat = [] then rep else [])"
| "replace_first pat rep (c # cs) =
     (if take (length pat) (c # cs) = pat then rep @ drop (length pat) (c # cs)
      else c # replace_first pat rep cs)"

definition approveSignature :: string where
  "approveSignature = ''0x095ea7b3''"

definition paddedSpender :: "string \<Rightarrow> string" where
  "paddedSpender sp = padStart 64 (CHR ''0'') (replace_first ''0x'' [] sp)"

definition paddedAmount :: string where
  "paddedAmount = padStart 64 (CHR ''0'') ''0''"

definition approveData :: "string \<Rightarrow> string" where
  "approveData sp = approveSignature @ paddedSpender sp @ paddedAmount"

definition maxAttempts :: nat where
  "maxAttempts = 30"

text \<open>
  The confirmation loop: \<open>attempts\<close> counts the queries that gave no receipt, whether the
  provider answered \<^verbatim>\<open>null\<close> or rejected.
\<close>

function pollReceipt :: "wallet \<Rightarrow> string \<Rightarrow> nat \<Rightarrow> receipt option \<times> event list" where
  "pollReceipt eth txHash attempts =
     (if attempts < maxAttempts then
        (case eth_getTransactionReceipt eth attempts txHash of
           Inr (Some r) \<Rightarrow> (Some r, [Request (Eth_getTransactionReceipt txHash)])
         | _ \<Rightarrow>
             (case pollReceipt eth txHash (Suc attempts) of
                (res, evs) \<Rightarrow> (res, Request (Eth_getTransactionReceipt txHash) # Sleep 2000 # evs)))
      else (None, []))"
  by pat_completeness auto
termination
  by (relation "measure (\<lambda>(eth, txHash, attempts). maxAttempts - attempts)") auto

declare pollReceipt.simps [simp del]

text \<open>What \<^verbatim>\<open>paymentInfo.spender.replace\<close> throws when the spender is not a string.\<close>

definition replace_error :: "json option \<Rightarrow> js_error" where
  "replace_error v =
     (case v of
        None \<Rightarrow> undefined_read ''replace''
      | Some JNull \<Rightarrow> null_read ''replace''
      | _ \<Rightarrow> TypeError ''paymentInfo.spender.replace is not a function'')"

definition approveTx :: "string list \<Rightarrow> PaymentInfo \<Rightarrow> string \<Rightarrow> json" where
  "approveTx accounts paymentInfo sp =
     JObj (defined_props
       [(''from'', (case accounts of [] \<Rightarrow> None | a # _ \<Rightarrow> Some (JStr a))),
        (''to'', asset paymentInfo),
        (''data'', Some (JStr (approveData sp))),
        (''value'', Some (JStr ''0x0''))])"

definition revokeBody :: "wallet \<Rightarrow> PaymentInfo \<Rightarrow> (js_error + unit) \<times> event list" where
  "revokeBody eth paymentInfo =
     (case eth_requestAccounts eth of
        Inl e \<Rightarrow> (Inl e, [Request Eth_requestAccounts])
      | Inr accounts \<Rightarrow>
          (case spender paymentInfo of
             Some (JStr sp) \<Rightarrow>
               (let tx = approveTx accounts paymentInfo sp;
                    evs = [Request Eth_requestAccounts, Request (Eth_sendTransaction tx)]
                in case eth_sendTransaction eth tx of
                     Inl e \<Rightarrow> (Inl e, evs)
                   | Inr txHash \<Rightarrow>
                       (case pollReceipt eth txHash 0 of
                          (rcpt, pevs) \<Rightarrow>
                            if rcpt = None \<or> map_option receipt_status rcpt = Some (Some ''0x0'')
                            then (Inl (Error ''Revocation transaction failed''), evs @ pevs)
                            else (Inr (), evs @ pevs)))
           | v \<Rightarrow> (Inl (replace_error v), [Request Eth_requestAccounts])))"

definition revokeApproval :: "world \<Rightarrow> PaymentInfo \<Rightarrow> (js_error + unit) \<times> event list" where
  "revokeApproval w paymentInfo =
     (case ethereum w of
        None \<Rightarrow> (Inl (Error ''MetaMask not found''), [])
      | Some eth \<Rightarrow>
          (case revokeBody eth paymentInfo of
             (Inl e, evs) \<Rightarrow> (Inl (Error (''Failed to revoke approval: '' @ message e)), evs)
           | (Inr u, evs) \<Rightarrow> (Inr (), evs)))"

section \<open>The broker helper\<close>

definition BROKER_API_BASE :: "world \<Rightarrow> string" where
  "BROKER_API_BASE w =
     (case NEXT_PUBLIC_BROKER_API_URL w of
        None \<Rightarrow> ''https://multidimensional-reviewless-freda.ngrok-free.dev''
      | Some u \<Rightarrow>
          if u = [] then ''https://multidimensional-reviewless-freda.ngrok-free.dev'' else u)"

definition own_headers :: "RequestInit \<Rightarrow> (string \<times> string) list" where
  "own_headers options = (case headers options of None \<Rightarrow> [] | Some hs \<Rightarrow> hs)"

text \<open>The \<^verbatim>\<open>init\<close> object of the first request and of the retry.\<close>

definition firstInit :: "RequestInit \<Rightarrow> RequestInit" where
  "firstInit options =
     options\<lparr>headers := Some (spread [(''Content-Type'', ''application/json'')] (own_headers options))\<rparr>"

definition retryInit :: "RequestInit \<Rightarrow> string \<Rightarrow> RequestInit" where
  "retryInit options paymentHeader =
     options\<lparr>headers :=
       Some (spread (spread [(''Content-Type'', ''application/json'')] (own_headers options))
               [(''X-Payment'', paymentHeader)])\<rparr>"

definition paymentResult_json :: "string \<times> PaymentInfo \<Rightarrow> json" where
  "paymentResult_json paymentResult =
     JObj [(''paymentHeader'', JStr (fst paymentResult)),
           (''paymentInfo'',
              JObj (defined_props
                [(''network'', network (snd paymentResult)),
                 (''spender'', spender (snd paymentResult)),
                 (''asset'', asset (snd paymentResult)),
                 (''userAddress'', userAddress (snd paymentResult))]))]"

text \<open>
  The check of the final response, shared by the paid and the unpaid path; the last line is
  \<^verbatim>\<open>response.json()\<close>.
\<close>

definition finalResponse :: "response \<Rightarrow> js_error + json" where
  "finalResponse r =
     (if \<not> ok r then
        Inl (Error (''Broker request failed ('' @ String_nat (status r) @ ''): '' @ body_text r))
      else JSON_parse (body_text r))"

definition brokerRequestWithPayment ::
  "world \<Rightarrow> string \<Rightarrow> RequestInit \<Rightarrow> (js_error + json) \<times> event list" where
  "brokerRequestWithPayment w endpoint options =
     (let url = BROKER_API_BASE w @ endpoint;
          first = Fetch url (Some (firstInit options))
      in case fetch w 0 url (Some (firstInit options)) of
           Inl e \<Rightarrow> (Inl e, [first])
         | Inr r \<Rightarrow>
             if status r = 402 then
               (case JSON_parse (body_text r) of
                  Inl err \<Rightarrow>
                    if err = OutsideModel then (Inl OutsideModel, [first])
                    else (Inl (Error ''Invalid payment requirements from broker''), [first])
                | Inr paymentRequirements \<Rightarrow>
                    (case ethereum w of
                       None \<Rightarrow>
                         (Inl (Error ''Payment required but wallet not connected. Please connect your wallet.''),
                          [first])
                     | Some eth \<Rightarrow>
                         (case eth_accounts eth of
                            Inl e \<Rightarrow> (Inl e, [first, Request Eth_accounts])
                          | Inr accounts \<Rightarrow>
                              if length accounts = 0 then
                                (Inl (Error ''Wallet not connected. Please connect your wallet first.''),
                                 [first, Request Eth_accounts])
                              else
                                (case createX402Payment w paymentRequirements (hd accounts) of
                                   (Inl e, evs) \<Rightarrow> (Inl e, [first, Request Eth_accounts] @ evs)
                                 | (Inr paymentResult, evs) \<Rightarrow>
                                     (let paymentHeader = stringify (paymentResult_json paymentResult);
                                          retry = Fetch url (Some (retryInit options paymentHeader));
                                          evs' = [first, Request Eth_accounts] @ evs @ [retry]
                                      in case fetch w 1 url (Some (retryInit options paymentHeader)) of
                                           Inl e \<Rightarrow> (Inl e, evs')
                                         | Inr r' \<Rightarrow> (finalResponse r', evs'))))))
             else (finalResponse r, [first]))"

section \<open>fetchWith402\<close>

definition relay :: "world \<Rightarrow> string" where
  "relay w = (case NEXT_PUBLIC_HTTPAYER_RELAY w of None \<Rightarrow> [] | Some u \<Rightarrow> u)"






section \<open>Notions used in the proofs\<close>

text \<open>What may follow a value inside an array or an object, or at the end of the text.\<close>

definition delim :: "string \<Rightarrow> bool" where
  "delim rest = (case rest of [] \<Rightarrow> True | c # _ \<Rightarrow> c = CHR '','' \<or> c = CHR '']'' \<or> c = CHR ''}'')"

text \<open>
  \<open>need\<close> is the nesting budget the parser uses on the text of a value; \<open>wf_json\<close> holds of
  the values JavaScript can build: the keys of an object are distinct.
\<close>

fun need :: "json \<Rightarrow> nat"
  and need_elems :: "json list \<Rightarrow> nat"
  and need_members :: "(string \<times> json) list \<Rightarrow> nat" where
  "need (JArr xs) = Suc (need_elems xs)"
| "need (JObj ms) = Suc (need_members ms)"
| "need _ = 1"
| "need_elems [] = 0"
| "need_elems (x # xs) = Suc (max (need x) (need_elems xs))"
| "need_members [] = 0"
| "need_members ((k, v) # ms) = Suc (max (need v) (need_members ms))"

fun wf_json :: "json \<Rightarrow> bool"
  and wf_elems :: "json list \<Rightarrow> bool"
  and wf_members :: "(string \<times> json) list \<Rightarrow> bool" where
  "wf_json (JArr xs) = wf_elems xs"
| "wf_json (JObj ms) = (distinct (map fst ms) \<and> wf_members ms)"
| "wf_json _ = True"
| "wf_elems [] = True"
| "wf_elems (x # xs) = (wf_json x \<and> wf_elems xs)"
| "wf_members [] = True"
| "wf_members ((k, v) # ms) = (wf_json v \<and> wf_members ms)"

definition starts_value :: "string \<Rightarrow> bool" where
  "starts_value s = (case s of [] \<Rightarrow> False | c # _ \<Rightarrow> \<not> is_ws c \<and> c \<noteq> CHR '']'' \<and> c \<noteq> CHR ''}'')"

text \<open>
  The values that stand for exactly one JavaScript value: every integer is a safe integer,
  which JavaScript neither rounds nor prints with an exponent, and no key of an object
  consists of digits only, so that the members keep the order of the text.
\<close>

definition index_like :: "string \<Rightarrow> bool" where
  "index_like k = (k \<noteq> [] \<and> list_all is_digit k)"

fun js_exact :: "json \<Rightarrow> bool"
  and js_exact_elems :: "json list \<Rightarrow> bool"
  and js_exact_members :: "(string \<times> json) list \<Rightarrow> bool" where
  "js_exact (JNum n) = (- 9007199254740991 \<le> n \<and> n \<le> 9007199254740991)"
| "js_exact (JArr xs) = js_exact_elems xs"
| "js_exact (JObj ms) = js_exact_members ms"
| "js_exact _ = True"
| "js_exact_elems [] = True"
| "js_exact_elems (x # xs) = (js_exact x \<and> js_exact_elems xs)"
| "js_exact_members [] = True"
| "js_exact_members ((k, v) # ms) = (\<not> index_like k \<and> js_exact v \<and> js_exact_members ms)"


text \<open>Kinds of events, for counting them in a trace.\<close>

fun is_fetch :: "event \<Rightarrow> bool" where
  "is_fetch (Fetch u i) = True"
| "is_fetch _ = False"

fun is_signing :: "event \<Rightarrow> bool" where
  "is_signing (Request (Eth_signTypedData_v4 a d)) = True"
| "is_signing _ = False"


fun is_receipt_query :: "event \<Rightarrow> bool" where
  "is_receipt_query (Request (Eth_getTransactionReceipt h)) = True"
| "is_receipt_query _ = False"

text \<open>The \<open>n\<close>-th receipt query gives no receipt: the provider answers \<^verbatim>\<open>null\<close> or rejects.\<close>

definition no_receipt :: "wallet \<Rightarrow> string \<Rightarrow> nat \<Rightarrow> bool" where
  "no_receipt eth txHash n =
     (case eth_getTransactionReceipt eth n txHash of Inr (Some r) \<Rightarrow> False | _ \<Rightarrow> True)"

text \<open>The test createX402Payment applies to \<^verbatim>\<open>requirements.accepts\<close>.\<close>

definition invalid_accepts :: "json option \<Rightarrow> bool" where
  "invalid_accepts accepts = (\<not> truthy accepts \<or> \<not> isArray accepts \<or> length (elements accepts) = 0)"

text \<open>
  What revokeApproval throws when the confirmation loop ends without a receipt or with a
  receipt of status \<^verbatim>\<open>0x0\<close>: the inner error, wrapped by the outer \<^verbatim>\<open>catch\<close>.
\<close>

definition RevocationFailed :: js_error where
  "RevocationFailed = Error ''Failed to revoke approval: Revocation transaction failed''"

section \<open>Example inputs\<close>

text \<open>A wallet that is already on the Avalanche C-Chain and grants every request.\<close>

definition demo_wallet :: wallet where
  "demo_wallet =
     \<lparr>eth_chainId = Inr ''0xa86a'',
      wallet_switchEthereumChain = (\<lambda>c. Inr ()),
      wallet_addEthereumChain = (\<lambda>p. Inr ()),
      eth_signTypedData_v4 = (\<lambda>a d. Inr ''0xsigned''),
      eth_accounts = Inr [''0xabc''],
      eth_requestAccounts = Inr [''0xabc''],
      eth_sendTransaction = (\<lambda>t. Inr ''0xtx''),
      eth_getTransactionReceipt = (\<lambda>n h. Inr (Some (Receipt (Some ''0x1''))))\<rparr>"

text \<open>A wallet whose transaction is never mined, and one whose transaction reverts.\<close>

definition pending_wallet :: wallet where
  "pending_wallet = demo_wallet\<lparr>eth_getTransactionReceipt := (\<lambda>n h. Inr None)\<rparr>"

definition reverted_wallet :: wallet where
  "reverted_wallet =
     demo_wallet\<lparr>eth_getTransactionReceipt := (\<lambda>n h. Inr (Some (Receipt (Some ''0x0''))))\<rparr>"

text \<open>A payment option for the Base network, and one with nothing but a network label.\<close>

definition base_option :: json where
  "base_option =
     JObj [(''scheme'', JStr ''exact''),
           (''network'', JStr ''base''),
           (''payTo'', JStr ''0xpayee''),
           (''asset'', JStr ''0xusdc''),
           (''maxAmountRequired'', JStr ''10000'')]"

definition bare_option :: json where
  "bare_option = JObj [(''scheme'', JStr ''exact''), (''network'', JStr ''base'')]"

definition demo_requirements :: json where
  "demo_requirements = JObj [(''x402Version'', JNum 1), (''accepts'', JArr [base_option])]"

definition bare_requirements :: json where
  "bare_requirements = JObj [(''x402Version'', JNum 1), (''accepts'', JArr [bare_option])]"

definition demo_options :: RequestInit where
  "demo_options = \<lparr>http_method = Some ''POST'', headers = None, body = Some ''{}''\<rparr>"

text \<open>The address of the \<^verbatim>\<open>/run\<close> endpoint when no broker address is configured.\<close>

definition demo_url :: string where
  "demo_url = ''https://multidimensional-reviewless-freda.ngrok-free.dev/run''"

definition job_done :: json where
  "job_done =
     JObj [(''jobId'', JStr ''abc''), (''status'', JStr ''completed''),
           (''result'', JObj [(''stdout'', JStr ''hi'')])]"

text \<open>
  A broker that answers the first request with a challenge and the second with the job; one
  that answers every request with the challenge; one that answers at once; one that
  answers at once with a body that is not JSON; and one that fails.
\<close>

definition demo_world :: world where
  "demo_world =
     \<lparr>ethereum = Some demo_wallet,
      fetch = (\<lambda>n u i. if n = 0 then Inr \<lparr>status = 402, body_text = stringify demo_requirements\<rparr>
                        else Inr \<lparr>status = 200, body_text = stringify job_done\<rparr>),
      now = 1700000000123,
      random = (\<lambda>i. 7 * i),
      NEXT_PUBLIC_BROKER_API_URL = None,
      NEXT_PUBLIC_HTTPAYER_RELAY = Some ''https://relay.example''\<rparr>"

definition paywall_world :: world where
  "paywall_world =
     demo_world\<lparr>fetch := (\<lambda>n u i. Inr \<lparr>status = 402, body_text = stringify demo_requirements\<rparr>)\<rparr>"

definition free_world :: world where
  "free_world =
     demo_world\<lparr>fetch := (\<lambda>n u i. Inr \<lparr>status = 200, body_text = stringify job_done\<rparr>)\<rparr>"

definition bare_world :: world where
  "bare_world =
     demo_world\<lparr>fetch := (\<lambda>n u i. if n = 0 then Inr \<lparr>status = 402, body_text = stringify bare_requirements\<rparr>
                        else Inr \<lparr>status = 200, body_text = stringify job_done\<rparr>)\<rparr>"


definition broken_world :: world where
  "broken_world = demo_world\<lparr>fetch := (\<lambda>n u i. Inr \<lparr>status = 500, body_text = ''boom''\<rparr>)\<rparr>"




definition pending_world :: world where
  "pending_world = demo_world\<lparr>ethereum := Some pending_wallet\<rparr>"

definition reverted_world :: world where
  "reverted_world = demo_world\<lparr>ethereum := Some reverted_wallet\<rparr>"

text \<open>The token and the payment info that the demonstration wallet yields for the Base option.\<close>

definition demo_header :: string where
  "demo_header = base64_encode (stringify (paymentData demo_world base_option ''0xabc'' ''0xsigned''))"

definition demo_info :: PaymentInfo where
  "demo_info =
     \<lparr>network = Some (JStr ''avalanche''), spender = Some (JStr ''0xpayee''),
      asset = Some (JStr ''0xusdc''), userAddress = Some (JStr ''0xabc'')\<rparr>"

section \<open>Properties of the JavaScript primitives\<close>

lemma char_eq_iff_nat: "(c = d) = ((of_char c :: nat) = of_char d)"
  by simp

lemma of_char_digit_char: "d < 16 \<Longrightarrow> (of_char (digit_char d) :: nat) = (if d < 10 then 48 + d else 87 + d)"
  by (simp add: digit_char_def)

lemma hex_val_digit_char: "d < 16 \<Longrightarrow> hex_val (digit_char d) = Some d"
  by (simp add: hex_val_def of_char_digit_char Let_def)

lemma is_digit_digit_char: "d < 10 \<Longrightarrow> is_digit (digit_char d)"
  by (simp add: is_digit_def of_char_digit_char)

lemma digit_char_val: "d < 10 \<Longrightarrow> (of_char (digit_char d) :: nat) - 48 = d"
  by (simp add: of_char_digit_char)

lemma String_nat_digits: "list_all is_digit (toString_radix 10 n)"
proof (induction "10::nat" n rule: toString_radix.induct)
  case (1 n)
  show ?case
  proof (cases "n < 10")
    case True
    then show ?thesis by (simp add: toString_radix.simps[of 10 n] is_digit_digit_char)
  next
    case False
    then have "list_all is_digit (toString_radix 10 (n div 10))" using 1 by simp
    with False show ?thesis
      by (simp add: toString_radix.simps[of 10 n] is_digit_digit_char)
  qed
qed

lemma String_nat_nonempty: "toString_radix b n \<noteq> []"
  by (subst toString_radix.simps) simp

lemma digits_val_snoc: "digits_val (ds @ [c]) = 10 * digits_val ds + (of_char c - 48)"
  by (simp add: digits_val_def)

lemma digits_val_String_nat: "digits_val (toString_radix 10 n) = n"
proof (induction "10::nat" n rule: toString_radix.induct)
  case (1 n)
  show ?case
  proof (cases "n < 10")
    case True
    then show ?thesis
      by (simp add: toString_radix.simps[of 10 n] digits_val_def digit_char_val)
  next
    case False
    then have "digits_val (toString_radix 10 (n div 10)) = n div 10" using 1 by simp
    with False show ?thesis
      by (simp add: toString_radix.simps[of 10 n] digits_val_snoc digit_char_val)
  qed
qed

lemma hd_String_nat: "0 < n \<Longrightarrow> hd (toString_radix 10 n) \<noteq> CHR ''0''"
proof (induction "10::nat" n rule: toString_radix.induct)
  case (1 n)
  show ?case
  proof (cases "n < 10")
    case True
    with 1(2) show ?thesis
      by (simp add: toString_radix.simps[of 10 n] char_eq_iff_nat[of _ "CHR ''0''"] of_char_digit_char)
  next
    case False
    then have "hd (toString_radix 10 (n div 10)) \<noteq> CHR ''0''" using 1 by simp
    with False show ?thesis
      by (simp add: toString_radix.simps[of 10 n] String_nat_nonempty)
  qed
qed

lemma length_String_nat_one: "length (toString_radix 10 n) = 1 \<longleftrightarrow> n < 10"
  by (subst toString_radix.simps) (simp add: String_nat_nonempty)


lemma takeWhile_digits: "list_all is_digit ds \<Longrightarrow> delim rest \<Longrightarrow> takeWhile is_digit (ds @ rest) = ds"
  by (induction ds) (auto simp: delim_def is_digit_def split: list.splits)

lemma dropWhile_digits: "list_all is_digit ds \<Longrightarrow> delim rest \<Longrightarrow> dropWhile is_digit (ds @ rest) = rest"
  by (induction ds) (auto simp: delim_def is_digit_def split: list.splits)

lemma delim_no_frac:
  "delim rest \<Longrightarrow> \<not> (case rest of c # _ \<Rightarrow> c = CHR ''.'' \<or> c = CHR ''e'' \<or> c = CHR ''E'' | [] \<Rightarrow> False)"
  by (auto simp: delim_def split: list.splits)

lemma String_nat_hd_not_minus: "hd (toString_radix 10 n) \<noteq> CHR ''-''"
proof -
  have "list_all is_digit (toString_radix 10 n)" by (rule String_nat_digits)
  moreover have "toString_radix 10 n \<noteq> []" by (rule String_nat_nonempty)
  ultimately have "is_digit (hd (toString_radix 10 n))"
    by (cases "toString_radix 10 n") auto
  then show ?thesis by (auto simp: is_digit_def)
qed

lemma parse_number_nat:
  assumes "delim rest"
  shows "parse_number (toString_radix 10 n @ rest) = Some (JNum (int n), rest)"
proof -
  let ?ds = "toString_radix 10 n"
  have ne: "?ds \<noteq> []" by (rule String_nat_nonempty)
  have dg: "list_all is_digit ?ds" by (rule String_nat_digits)
  have nm: "hd ?ds \<noteq> CHR ''-''" by (rule String_nat_hd_not_minus)
  have lz: "\<not> (1 < length ?ds \<and> hd ?ds = CHR ''0'')"
  proof (cases "n = 0")
    case True
    then show ?thesis by (simp add: toString_radix.simps[of 10 0])
  next
    case False
    then show ?thesis using hd_String_nat[of n] by simp
  qed
  obtain c cs where cs: "?ds = c # cs" using ne by (cases ?ds) auto
  have c: "c \<noteq> CHR ''-''" using nm cs by simp
  show ?thesis
    unfolding parse_number_def Let_def
    using assms ne lz c cs takeWhile_digits[OF dg assms] dropWhile_digits[OF dg assms]
      delim_no_frac[OF assms] digits_val_String_nat[of n]
    by simp
qed


lemma parse_number_neg:
  assumes "delim rest" and "0 < n"
  shows "parse_number (CHR ''-'' # toString_radix 10 n @ rest) = Some (JNum (- int n), rest)"
proof -
  let ?ds = "toString_radix 10 n"
  have ne: "?ds \<noteq> []" by (rule String_nat_nonempty)
  have dg: "list_all is_digit ?ds" by (rule String_nat_digits)
  have lz: "\<not> (1 < length ?ds \<and> hd ?ds = CHR ''0'')"
    using hd_String_nat[OF assms(2)] by simp
  show ?thesis
    unfolding parse_number_def Let_def
    using assms ne lz takeWhile_digits[OF dg assms(1)] dropWhile_digits[OF dg assms(1)]
      delim_no_frac[OF assms(1)] digits_val_String_nat[of n]
    by simp
qed

lemma parse_number_String_int:
  assumes "delim rest"
  shows "parse_number (String_int i @ rest) = Some (JNum i, rest)"
proof (cases "i < 0")
  case True
  then have "0 < nat (- i)" by simp
  from parse_number_neg[OF assms this] True show ?thesis
    by (simp add: String_int_def String_nat_def)
next
  case False
  with parse_number_nat[OF assms, of "nat i"] show ?thesis
    by (simp add: String_int_def String_nat_def)
qed

lemma hex4_byte: "n < 256 \<Longrightarrow> hex4 (CHR ''0'') (CHR ''0'') (digit_char (n div 16)) (digit_char (n mod 16)) = Some n"
  by (simp add: hex4_def hex_val_digit_char) (simp add: hex_val_def)

lemma parse_string_step_plain:
  assumes "(of_char c :: nat) \<noteq> 0x22" "(of_char c :: nat) \<noteq> 0x5C" "0x20 \<le> (of_char c :: nat)"
  shows "parse_string (c # cs) = (case parse_string cs of None \<Rightarrow> None | Some (s, rest) \<Rightarrow> Some (c # s, rest))"
  using assms by (auto simp: char_eq_iff_nat[of c])

lemma parse_string_escape:
  "parse_string (escape_char c @ cs) =
     (case parse_string cs of None \<Rightarrow> None | Some (s, rest) \<Rightarrow> Some (c # s, rest))"
proof -
  let ?n = "of_char c :: nat"
  have c: "c = char_of ?n" by simp
  consider "?n = 0x22" | "?n = 0x5C" | "?n = 0x08" | "?n = 0x0C" | "?n = 0x0A" | "?n = 0x0D" | "?n = 0x09"
    | "?n < 0x20" "?n \<noteq> 0x08" "?n \<noteq> 0x0C" "?n \<noteq> 0x0A" "?n \<noteq> 0x0D" "?n \<noteq> 0x09"
    | "0x20 \<le> ?n" "?n \<noteq> 0x22" "?n \<noteq> 0x5C"
    by linarith
  then show ?thesis
  proof cases
    case 1
    then have "c = CHR 0x22" by (simp add: char_eq_iff_nat[of c])
    then show ?thesis by (simp add: escape_char_def unescape_def split: option.splits)
  next
    case 2
    then have "c = CHR 0x5C" by (simp add: char_eq_iff_nat[of c])
    then show ?thesis by (simp add: escape_char_def unescape_def split: option.splits)
  next
    case 3
    then have "c = CHR 0x08" by (simp add: char_eq_iff_nat[of c])
    then show ?thesis by (simp add: escape_char_def unescape_def split: option.splits)
  next
    case 4
    then have "c = CHR 0x0C" by (simp add: char_eq_iff_nat[of c])
    then show ?thesis by (simp add: escape_char_def unescape_def split: option.splits)
  next
    case 5
    then have "c = CHR 0x0A" by (simp add: char_eq_iff_nat[of c])
    then show ?thesis by (simp add: escape_char_def unescape_def split: option.splits)
  next
    case 6
    then have "c = CHR 0x0D" by (simp add: char_eq_iff_nat[of c])
    then show ?thesis by (simp add: escape_char_def unescape_def split: option.splits)
  next
    case 7
    then have "c = CHR 0x09" by (simp add: char_eq_iff_nat[of c])
    then show ?thesis by (simp add: escape_char_def unescape_def split: option.splits)
  next
    case 8
    then have e: "escape_char c = [CHR 0x5C, CHR ''u'', CHR ''0'', CHR ''0'', digit_char (?n div 16), digit_char (?n mod 16)]"
      by (simp add: escape_char_def hex_byte_def Let_def)
    have h: "hex4 (CHR ''0'') (CHR ''0'') (digit_char (?n div 16)) (digit_char (?n mod 16)) = Some ?n"
      by (rule hex4_byte) simp
    have u: "utf8 ?n = Some [c]" using 8(1) by (simp add: utf8_def)
    show ?thesis by (simp add: e h u split: option.splits)
  next
    case 9
    then have e: "escape_char c = [c]" by (simp add: escape_char_def Let_def)
    show ?thesis unfolding e using parse_string_step_plain[of c cs] 9 by simp
  qed
qed

lemma parse_string_quote:
  "parse_string (concat (map escape_char s) @ CHR 0x22 # rest) = Some (s, rest)"
proof (induction s)
  case Nil
  show ?case by simp
next
  case (Cons c s)
  then show ?case by (simp add: parse_string_escape del: parse_string.simps(2))
qed

lemma parse_string_quote_json:
  "quote_json s @ rest = CHR 0x22 # concat (map escape_char s) @ CHR 0x22 # rest"
  by (simp add: quote_json_def)


lemma starts_value_append: "starts_value s \<Longrightarrow> starts_value (s @ t)"
  by (cases s) (auto simp: starts_value_def)

lemma is_digit_starts: "is_digit c \<Longrightarrow> \<not> is_ws c \<and> c \<noteq> CHR '']'' \<and> c \<noteq> CHR ''}''"
  by (auto simp: is_digit_def is_ws_def)

lemma starts_value_String_nat: "starts_value (toString_radix 10 n)"
proof -
  obtain c cs where cs: "toString_radix 10 n = c # cs"
    using String_nat_nonempty[of 10 n] by (cases "toString_radix 10 n") auto
  then have "is_digit c" using String_nat_digits[of n] by simp
  then show ?thesis using cs is_digit_starts[of c] by (simp add: starts_value_def)
qed

lemma starts_value_String_int: "starts_value (String_int i)"
  using starts_value_String_nat[of "nat i"]
  by (simp add: String_int_def String_nat_def) (simp add: starts_value_def is_ws_def)

lemma starts_value_stringify: "starts_value (stringify j)"
  by (cases j) (auto simp: starts_value_def is_ws_def quote_json_def starts_value_String_int[unfolded starts_value_def])

lemma skip_ws_starts_value: "starts_value s \<Longrightarrow> skip_ws s = s"
  by (cases s) (auto simp: starts_value_def skip_ws_def)

lemma skip_ws_delim: "delim (c # r) \<Longrightarrow> skip_ws (c # r) = c # r"
  by (auto simp: delim_def skip_ws_def is_ws_def)


lemma starts_value_elems: "xs \<noteq> [] \<Longrightarrow> starts_value (stringify_elems xs)"
  by (cases xs rule: stringify_elems.cases)
     (auto intro: starts_value_append starts_value_stringify)

lemma starts_value_not_close:
  "starts_value s \<Longrightarrow> \<exists>c r. s = c # r \<and> \<not> is_ws c \<and> c \<noteq> CHR '']'' \<and> c \<noteq> CHR ''}''"
  by (cases s) (auto simp: starts_value_def)

lemma number_start:
  assumes "is_digit c \<or> c = CHR ''-''"
  shows "\<not> is_ws c" "c \<noteq> CHR ''n''" "c \<noteq> CHR ''t''" "c \<noteq> CHR ''f''" "c \<noteq> CHR 0x22"
    "c \<noteq> CHR ''[''" "c \<noteq> CHR ''{''"
  using assms by (auto simp: is_digit_def is_ws_def)

lemma parse_value_number:
  assumes "is_digit c \<or> c = CHR ''-''"
  shows "parse_value (Suc n) (c # cs) = parse_number (c # cs)"
proof -
  have "skip_ws (c # cs) = c # cs"
    using number_start(1)[OF assms] by (simp add: skip_ws_def)
  then show ?thesis
    using number_start(2-7)[OF assms] by simp
qed

lemma String_nat_first: "\<exists>c cs. toString_radix 10 n = c # cs \<and> is_digit c"
  using String_nat_nonempty[of 10 n] String_nat_digits[of n]
  by (cases "toString_radix 10 n") auto

lemma String_int_first: "\<exists>c cs. String_int i = c # cs \<and> (is_digit c \<or> c = CHR ''-'')"
proof (cases "i < 0")
  case True
  then show ?thesis by (simp add: String_int_def)
next
  case False
  obtain c cs where "toString_radix 10 (nat i) = c # cs" "is_digit c"
    using String_nat_first[of "nat i"] by blast
  with False show ?thesis by (simp add: String_int_def String_nat_def)
qed

lemma parse_value_num:
  assumes "delim rest"
  shows "parse_value (Suc n) (String_int i @ rest) = Some (JNum i, rest)"
proof -
  obtain c cs where cs: "String_int i = c # cs" and c: "is_digit c \<or> c = CHR ''-''"
    using String_int_first[of i] by blast
  have "parse_value (Suc n) (String_int i @ rest) = parse_number (String_int i @ rest)"
    unfolding cs using parse_value_number[OF c] by simp
  then show ?thesis using parse_number_String_int[OF assms] by simp
qed

lemma parse_value_str: "parse_value (Suc n) (quote_json s @ rest) = Some (JStr s, rest)"
  unfolding parse_string_quote_json
  by (simp add: skip_ws_def is_ws_def parse_string_quote del: parse_string.simps)

lemma parse_value_arr:
  assumes "xs \<noteq> []"
  shows "parse_value (Suc n) (CHR ''['' # stringify_elems xs @ rest) =
     (case parse_elems n (stringify_elems xs @ rest) of None \<Rightarrow> None | Some (ys, r) \<Rightarrow> Some (JArr ys, r))"
proof -
  obtain c r where cr: "stringify_elems xs = c # r" and c: "\<not> is_ws c" "c \<noteq> CHR '']''"
    using starts_value_not_close[OF starts_value_elems[OF assms]] by blast
  show ?thesis unfolding cr using c by (simp add: skip_ws_def is_ws_def)
qed

lemma members_first: "ms \<noteq> [] \<Longrightarrow> \<exists>r. stringify_members ms = CHR 0x22 # r"
  by (cases ms rule: stringify_members.cases) (auto simp: quote_json_def)

lemma parse_value_obj:
  assumes "ms \<noteq> []"
  shows "parse_value (Suc n) (CHR ''{'' # stringify_members ms @ rest) =
     (case parse_members n (stringify_members ms @ rest) of None \<Rightarrow> None
      | Some (ys, r) \<Rightarrow> Some (JObj (obj_of_members ys), r))"
proof -
  obtain r where r: "stringify_members ms = CHR 0x22 # r"
    using members_first[OF assms] by blast
  show ?thesis unfolding r by (simp add: skip_ws_def is_ws_def)
qed

lemma parse_elems_step:
  assumes "parse_value n (s @ d # r) = Some (x, d # r)" "d = CHR '','' \<or> d = CHR '']''"
  shows "parse_elems (Suc n) (s @ d # r) =
     (if d = CHR '','' then
        (case parse_elems n r of None \<Rightarrow> None | Some (xs, r'') \<Rightarrow> Some (x # xs, r''))
      else Some ([x], r))"
  using assms by (auto simp: skip_ws_def is_ws_def)

lemma parse_members_step:
  assumes "parse_value n (s @ d # r) = Some (v, d # r)" "d = CHR '','' \<or> d = CHR ''}''"
  shows "parse_members (Suc n) (quote_json k @ CHR '':'' # s @ d # r) =
     (if d = CHR '','' then
        (case parse_members n r of None \<Rightarrow> None | Some (ms, r'') \<Rightarrow> Some ((k, v) # ms, r''))
      else Some ([(k, v)], r))"
proof -
  have q: "quote_json k @ CHR '':'' # s @ d # r = CHR 0x22 # concat (map escape_char k) @ CHR 0x22 # (CHR '':'' # s @ d # r)"
    by (simp add: quote_json_def)
  show ?thesis
    unfolding q using assms
    by (auto simp: skip_ws_def is_ws_def parse_string_quote simp del: parse_string.simps)
qed

lemma spread_fresh:
  "distinct (map fst (acc @ ms)) \<Longrightarrow> spread acc ms = acc @ ms"
proof (induction ms arbitrary: acc)
  case Nil
  then show ?case by (simp add: spread_def)
next
  case (Cons m ms)
  obtain k v where m: "m = (k, v)" by (cases m)
  have "k \<notin> fst ` set acc" using Cons.prems m by auto
  then have u: "AList.update k v acc = acc @ [(k, v)]"
    by (induction acc) auto
  have "spread acc (m # ms) = spread (acc @ [(k, v)]) ms"
    by (simp add: spread_def m u)
  also have "\<dots> = (acc @ [(k, v)]) @ ms"
    using Cons.prems m by (intro Cons.IH) simp
  finally show ?case by (simp add: m)
qed

lemma obj_of_members_distinct: "distinct (map fst ms) \<Longrightarrow> obj_of_members ms = ms"
  using spread_fresh[of "[]" ms] by (simp add: obj_of_members_def)


lemma delim_simps [simp]:
  "delim []" "delim (CHR '','' # r)" "delim (CHR '']'' # r)" "delim (CHR ''}'' # r)"
  by (simp_all add: delim_def)

lemma parse_roundtrip:
  "\<forall>n rest. wf_json j \<longrightarrow> need j \<le> n \<longrightarrow> delim rest \<longrightarrow>
      parse_value n (stringify j @ rest) = Some (j, rest)"
  "\<forall>n rest. xs \<noteq> [] \<longrightarrow> wf_elems xs \<longrightarrow> need_elems xs \<le> n \<longrightarrow>
      parse_elems n (stringify_elems xs @ rest) = Some (xs, rest)"
  "\<forall>n rest. ms \<noteq> [] \<longrightarrow> wf_members ms \<longrightarrow> need_members ms \<le> n \<longrightarrow>
      parse_members n (stringify_members ms @ rest) = Some (ms, rest)"
proof (induction j and xs and ms rule: stringify_stringify_elems_stringify_members.induct)
  case 1
  show ?case
  proof (intro allI impI)
    fix n rest assume "need JNull \<le> n"
    then obtain n' where "n = Suc n'" by (cases n) auto
    then show "parse_value n (stringify JNull @ rest) = Some (JNull, rest)"
      by (simp add: skip_ws_def is_ws_def)
  qed
next
  case (2 b)
  show ?case
  proof (intro allI impI)
    fix n rest assume "need (JBool b) \<le> n"
    then obtain n' where "n = Suc n'" by (cases n) auto
    then show "parse_value n (stringify (JBool b) @ rest) = Some (JBool b, rest)"
      by (simp add: skip_ws_def is_ws_def)
  qed
next
  case (3 i)
  show ?case
  proof (intro allI impI)
    fix n rest assume "need (JNum i) \<le> n" and d: "delim rest"
    then obtain n' where "n = Suc n'" by (cases n) auto
    then show "parse_value n (stringify (JNum i) @ rest) = Some (JNum i, rest)"
      using parse_value_num[OF d] by simp
  qed
next
  case (4 s)
  show ?case
  proof (intro allI impI)
    fix n rest assume "need (JStr s) \<le> n"
    then obtain n' where "n = Suc n'" by (cases n) auto
    then show "parse_value n (stringify (JStr s) @ rest) = Some (JStr s, rest)"
      using parse_value_str by simp
  qed
next
  case (5 xs)
  show ?case
  proof (intro allI impI)
    fix n rest assume wf: "wf_json (JArr xs)" and nd: "need (JArr xs) \<le> n"
    then obtain n' where n: "n = Suc n'" and n': "need_elems xs \<le> n'" by (cases n) auto
    show "parse_value n (stringify (JArr xs) @ rest) = Some (JArr xs, rest)"
    proof (cases "xs = []")
      case True
      then show ?thesis by (simp add: n skip_ws_def is_ws_def)
    next
      case False
      then have "parse_elems n' (stringify_elems xs @ rest) = Some (xs, rest)"
        using 5 wf n' by simp
      then show ?thesis using parse_value_arr[OF False, of n' rest] by (simp add: n)
    qed
  qed
next
  case (6 ms)
  show ?case
  proof (intro allI impI)
    fix n rest assume wf: "wf_json (JObj ms)" and nd: "need (JObj ms) \<le> n"
    then obtain n' where n: "n = Suc n'" and n': "need_members ms \<le> n'" by (cases n) auto
    show "parse_value n (stringify (JObj ms) @ rest) = Some (JObj ms, rest)"
    proof (cases "ms = []")
      case True
      then show ?thesis by (simp add: n skip_ws_def is_ws_def)
    next
      case False
      then have "parse_members n' (stringify_members ms @ rest) = Some (ms, rest)"
        using 6 wf n' by simp
      then show ?thesis
        using parse_value_obj[OF False, of n' rest] wf
        by (simp add: n obj_of_members_distinct)
    qed
  qed
next
  case 7
  show ?case by simp
next
  case (8 x)
  show ?case
  proof (intro allI impI)
    fix n rest assume wf: "wf_elems [x]" and nd: "need_elems [x] \<le> n"
    then obtain n' where n: "n = Suc n'" and n': "need x \<le> n'" by (cases n) auto
    have "parse_value n' (stringify x @ CHR '']'' # rest) = Some (x, CHR '']'' # rest)"
      using 8 wf n' by simp
    from parse_elems_step[OF this] show "parse_elems n (stringify_elems [x] @ rest) = Some ([x], rest)"
      by (simp add: n)
  qed
next
  case (9 x y xs)
  show ?case
  proof (intro allI impI)
    fix n rest assume wf: "wf_elems (x # y # xs)" and nd: "need_elems (x # y # xs) \<le> n"
    then obtain n' where n: "n = Suc n'" and n': "need x \<le> n'" "need_elems (y # xs) \<le> n'"
      by (cases n) auto
    let ?r = "stringify_elems (y # xs) @ rest"
    have "parse_value n' (stringify x @ CHR '','' # ?r) = Some (x, CHR '','' # ?r)"
      using 9(1) wf n' by simp
    from parse_elems_step[OF this]
    have "parse_elems (Suc n') (stringify x @ CHR '','' # ?r) =
        (case parse_elems n' ?r of None \<Rightarrow> None | Some (xs, r'') \<Rightarrow> Some (x # xs, r''))"
      by simp
    moreover have "parse_elems n' ?r = Some (y # xs, rest)"
      using 9(2) wf n' by simp
    ultimately show "parse_elems n (stringify_elems (x # y # xs) @ rest) = Some (x # y # xs, rest)"
      by (simp add: n)
  qed
next
  case 10
  show ?case by simp
next
  case (11 k v)
  show ?case
  proof (intro allI impI)
    fix n rest assume wf: "wf_members [(k, v)]" and nd: "need_members [(k, v)] \<le> n"
    then obtain n' where n: "n = Suc n'" and n': "need v \<le> n'" by (cases n) auto
    have "parse_value n' (stringify v @ CHR ''}'' # rest) = Some (v, CHR ''}'' # rest)"
      using 11 wf n' by simp
    from parse_members_step[OF this, of k]
    show "parse_members n (stringify_members [(k, v)] @ rest) = Some ([(k, v)], rest)"
      by (simp add: n)
  qed
next
  case (12 k v m ms)
  show ?case
  proof (intro allI impI)
    fix n rest assume wf: "wf_members ((k, v) # m # ms)"
      and nd: "need_members ((k, v) # m # ms) \<le> n"
    then obtain n' where n: "n = Suc n'" and n': "need v \<le> n'" "need_members (m # ms) \<le> n'"
      by (cases n) auto
    let ?r = "stringify_members (m # ms) @ rest"
    have "parse_value n' (stringify v @ CHR '','' # ?r) = Some (v, CHR '','' # ?r)"
      using 12(1) wf n' by simp
    from parse_members_step[OF this, of k]
    have "parse_members (Suc n') (quote_json k @ CHR '':'' # stringify v @ CHR '','' # ?r) =
        (case parse_members n' ?r of None \<Rightarrow> None | Some (ms', r'') \<Rightarrow> Some ((k, v) # ms', r''))"
      by simp
    moreover have "parse_members n' ?r = Some (m # ms, rest)"
      using 12(2) wf n' by simp
    ultimately show "parse_members n (stringify_members ((k, v) # m # ms) @ rest) =
        Some ((k, v) # m # ms, rest)"
      by (simp add: n)
  qed
qed


lemma String_int_nonempty: "String_int i \<noteq> []"
  by (simp add: String_int_def String_nat_def String_nat_nonempty)

lemma need_le_length:
  "need j \<le> length (stringify j)"
  "need_elems xs \<le> length (stringify_elems xs)"
  "need_members ms \<le> length (stringify_members ms)"
proof (induction j and xs and ms rule: stringify_stringify_elems_stringify_members.induct)
  case (3 i)
  show ?case using String_int_nonempty[of i] by (cases "String_int i") auto
next
  case (4 s)
  show ?case by (simp add: quote_json_def)
qed auto

lemma JSON_parse_stringify: "wf_json j \<Longrightarrow> JSON_parse (stringify j) = Inr j"
proof -
  assume wf: "wf_json j"
  have nd: "need j \<le> Suc (length (stringify j))" using need_le_length(1)[of j] by simp
  have "parse_value (Suc (length (stringify j))) (stringify j @ []) = Some (j, [])"
    using parse_roundtrip(1)[rule_format, OF wf nd, of "[]"] by simp
  then have "parse_value (Suc (length (stringify j))) (stringify j) = Some (j, [])"
    by (simp del: parse_value.simps)
  then show ?thesis by (simp add: JSON_parse_def skip_ws_def del: parse_value.simps)
qed

lemma b64_val_char: "n < 64 \<Longrightarrow> b64_val (b64_char n) = Some n"
  by (auto simp: b64_val_def b64_char_def Let_def char_eq_iff_nat[of _ "CHR ''+''"] char_eq_iff_nat[of _ "CHR ''/''"])

lemma b64_val_pad: "b64_val (CHR ''='') = None"
  by (simp add: b64_val_def)

lemma sextet_bounds:
  fixes x y z :: nat
  assumes "x < 256" "y < 256" "z < 256"
  shows "x div 4 < 64" "(x mod 4) * 16 + y div 16 < 64" "(y mod 16) * 4 + z div 64 < 64" "z mod 64 < 64"
    "(x mod 4) * 16 < 64" "(y mod 16) * 4 < 64"
proof -
  show "x div 4 < 64" using assms by linarith
  have x4: "x mod 4 < 4" and y16: "y mod 16 < 16" by simp_all
  have yd: "y div 16 < 16" using assms by linarith
  have zd: "z div 64 < 4" using assms by linarith
  show "(x mod 4) * 16 + y div 16 < 64" using x4 yd by linarith
  show "(y mod 16) * 4 + z div 64 < 64" using y16 zd by linarith
  show "z mod 64 < 64" by simp
  show "(x mod 4) * 16 < 64" using x4 by linarith
  show "(y mod 16) * 4 < 64" using y16 by linarith
qed

lemma join_div: "b < k \<Longrightarrow> (a * k + b) div k = (a::nat)"
  by simp

lemma join_mod: "b < k \<Longrightarrow> (a * k + b) mod k = (b::nat)"
  by simp

lemma bytes_join:
  fixes x y z :: nat
  assumes "x < 256" "y < 256" "z < 256"
  shows "(x div 4) * 4 + ((x mod 4) * 16 + y div 16) div 16 = x"
    "(((x mod 4) * 16 + y div 16) mod 16) * 16 + ((y mod 16) * 4 + z div 64) div 4 = y"
    "(((y mod 16) * 4 + z div 64) mod 4) * 64 + z mod 64 = z"
    "(x div 4) * 4 + ((x mod 4) * 16) div 16 = x"
    "(((x mod 4) * 16 + y div 16) mod 16) * 16 + ((y mod 16) * 4) div 4 = y"
proof -
  have yd: "y div 16 < 16" using assms by linarith
  have zd: "z div 64 < 4" using assms by linarith
  have a: "((x mod 4) * 16 + y div 16) div 16 = x mod 4" using yd by (rule join_div)
  have b: "((x mod 4) * 16 + y div 16) mod 16 = y div 16" using yd by (rule join_mod)
  have c: "((y mod 16) * 4 + z div 64) div 4 = y mod 16" using zd by (rule join_div)
  have d: "((y mod 16) * 4 + z div 64) mod 4 = z div 64" using zd by (rule join_mod)
  show "(x div 4) * 4 + ((x mod 4) * 16 + y div 16) div 16 = x" unfolding a by simp
  show "(((x mod 4) * 16 + y div 16) mod 16) * 16 + ((y mod 16) * 4 + z div 64) div 4 = y"
    unfolding b c by simp
  show "(((y mod 16) * 4 + z div 64) mod 4) * 64 + z mod 64 = z" unfolding d by simp
  show "(x div 4) * 4 + ((x mod 4) * 16) div 16 = x" by simp
  show "(((x mod 4) * 16 + y div 16) mod 16) * 16 + ((y mod 16) * 4) div 4 = y"
    unfolding b by simp
qed

lemma base64_roundtrip: "base64_decode (base64_encode bs) = bs"
  unfolding base64_decode_def
proof (induction bs rule: base64_encode.induct)
  case 1
  show ?case by simp
next
  case (2 a)
  have a: "(of_char a :: nat) < 256" by simp
  show ?case
    using sextet_bounds[OF a a a] bytes_join(4)[OF a a a]
    by (simp add: Let_def b64_val_char b64_val_pad)
next
  case (3 a b)
  have a: "(of_char a :: nat) < 256" and b: "(of_char b :: nat) < 256" by simp_all
  show ?case
    using sextet_bounds[OF a b b] bytes_join[OF a b b]
    by (simp add: Let_def b64_val_char b64_val_pad)
next
  case (4 a b c r)
  have a: "(of_char a :: nat) < 256" and b: "(of_char b :: nat) < 256"
    and c: "(of_char c :: nat) < 256" by simp_all
  show ?case
    using sextet_bounds[OF a b c] bytes_join[OF a b c] 4
    by (simp add: Let_def b64_val_char)
qed

lemma decode_encode: "wf_json j \<Longrightarrow> JSON_parse (base64_decode (base64_encode (stringify j))) = Inr j"
  by (simp add: base64_roundtrip JSON_parse_stringify)

lemma toString_radix_small: "n < b \<Longrightarrow> toString_radix b n = [digit_char n]"
  by (subst toString_radix.simps) simp

lemma toString_radix_big:
  "b \<le> n \<Longrightarrow> 2 \<le> b \<Longrightarrow> toString_radix b n = toString_radix b (n div b) @ [digit_char (n mod b)]"
  by (subst toString_radix.simps) simp

lemma digit_char_simps:
  "digit_char 0 = CHR ''0''" "digit_char 1 = CHR ''1''" "digit_char 2 = CHR ''2''"
  "digit_char 3 = CHR ''3''" "digit_char 4 = CHR ''4''" "digit_char 5 = CHR ''5''"
  "digit_char 6 = CHR ''6''" "digit_char 7 = CHR ''7''" "digit_char 8 = CHR ''8''"
  "digit_char 9 = CHR ''9''" "digit_char 10 = CHR ''a''" "digit_char 11 = CHR ''b''"
  "digit_char 12 = CHR ''c''" "digit_char 13 = CHR ''d''" "digit_char 14 = CHR ''e''"
  "digit_char 15 = CHR ''f''"
  by (simp_all add: digit_char_def char_eq_iff_nat)

lemma targetChainIdHex_eq: "targetChainIdHex = ''0xa86a''"
  unfolding targetChainIdHex_def targetChainId_def
  by (simp add: toString_radix_small toString_radix_big digit_char_simps)

section \<open>Traces and results of the client functions\<close>

lemma switchNetwork_events:
  "filter is_fetch (snd (switchNetwork eth)) = [] \<and> filter is_signing (snd (switchNetwork eth)) = []"
  by (simp add: switchNetwork_def split: sum.splits)

lemma switchNetwork_on_chain:
  "eth_chainId eth = Inr targetChainIdHex \<Longrightarrow> switchNetwork eth = (Inr (), [Request Eth_chainId])"
  by (simp add: switchNetwork_def)

lemma signBody_events:
  "filter is_fetch (snd (signBody w eth opt a)) = []
   \<and> length (filter is_signing (snd (signBody w eth opt a))) \<le> 1"
proof -
  obtain r evs where sn: "switchNetwork eth = (r, evs)" by (cases "switchNetwork eth")
  have e: "filter is_fetch evs = []" "filter is_signing evs = []"
    using switchNetwork_events[of eth] sn by simp_all
  show ?thesis
    by (cases r; cases opt) (simp_all add: signBody_def sn e Let_def split: sum.splits)
qed

lemma signWithMetaMask_events:
  "filter is_fetch (snd (signWithMetaMask w opt a)) = []
   \<and> length (filter is_signing (snd (signWithMetaMask w opt a))) \<le> 1"
proof (cases "ethereum w")
  case None
  then show ?thesis by (simp add: signWithMetaMask_def)
next
  case (Some eth)
  obtain r evs where sb: "signBody w eth opt a = (r, evs)" by (cases "signBody w eth opt a")
  with signBody_events[of w eth opt a] Some show ?thesis
    by (cases r) (simp_all add: signWithMetaMask_def)
qed

lemma signBody_ok:
  assumes "switchNetwork eth = (Inr (), sevs)" "opt \<noteq> JNull"
    and "eth_signTypedData_v4 eth a (stringify (typedData w opt a)) = Inr sig"
  shows "signBody w eth opt a =
     (Inr (base64_encode (stringify (paymentData w opt a sig))),
      sevs @ [Request (Eth_signTypedData_v4 a (stringify (typedData w opt a)))])"
  using assms by (cases opt) (simp_all add: signBody_def Let_def)

lemma signWithMetaMask_ok:
  assumes "ethereum w = Some eth" "switchNetwork eth = (Inr (), sevs)" "opt \<noteq> JNull"
    and "eth_signTypedData_v4 eth a (stringify (typedData w opt a)) = Inr sig"
  shows "signWithMetaMask w opt a =
     (Inr (base64_encode (stringify (paymentData w opt a sig))),
      sevs @ [Request (Eth_signTypedData_v4 a (stringify (typedData w opt a)))])"
  using assms(1) signBody_ok[OF assms(2-4)] by (simp add: signWithMetaMask_def)

text \<open>Whatever signWithMetaMask returns as a header is the encoding of a paymentData object.\<close>

lemma signWithMetaMask_header:
  assumes "signWithMetaMask w opt a = (Inr h, evs)"
  shows "\<exists>sig. h = base64_encode (stringify (paymentData w opt a sig)) \<and> opt \<noteq> JNull
     \<and> Request (Eth_signTypedData_v4 a (stringify (typedData w opt a))) \<in> set evs"
proof -
  from assms obtain eth where eth: "ethereum w = Some eth"
    by (cases "ethereum w") (auto simp: signWithMetaMask_def)
  obtain r sevs where sn: "switchNetwork eth = (r, sevs)" by (cases "switchNetwork eth")
  from assms eth have sb: "signBody w eth opt a = (Inr h, evs)"
    by (auto simp: signWithMetaMask_def split: prod.splits sum.splits)
  then show ?thesis
    by (cases r; cases opt) (auto simp: signBody_def sn Let_def split: sum.splits)
qed


lemma wf_members_mem: "wf_members ms \<Longrightarrow> (k, v) \<in> set ms \<Longrightarrow> wf_json v"
  by (induction ms) auto

lemma wf_js_prop: "wf_json j \<Longrightarrow> js_prop j k = Some v \<Longrightarrow> wf_json v"
  by (cases j) (auto dest: map_of_SomeD wf_members_mem)

lemma wf_paymentData:
  assumes "wf_json opt"
  shows "wf_json (paymentData w opt a sig)"
proof (cases "js_prop opt ''payTo''")
  case None
  then show ?thesis by (simp add: paymentData_def)
next
  case (Some v)
  then have "wf_json v" using assms wf_js_prop by blast
  with Some show ?thesis by (simp add: paymentData_def)
qed

lemma get_prop_obj: "get_prop (Some (JObj ms)) k = Inr (map_of ms k)"
  by (simp add: get_prop_def)

lemma get_prop_nonnull: "j \<noteq> JNull \<Longrightarrow> get_prop (Some j) k = Inr (js_prop j k)"
  by (cases j) (simp_all add: get_prop_def)

lemma paymentData_fields:
  "get_path (Some (paymentData w opt a sig)) [''network''] = Inr (Some (JStr ''avalanche''))"
  "get_path (Some (paymentData w opt a sig)) [''payload'', ''authorization'', ''to''] = Inr (js_prop opt ''payTo'')"
  "get_path (Some (paymentData w opt a sig)) [''payload'', ''authorization'', ''from''] = Inr (Some (JStr a))"
  by (cases "js_prop opt ''payTo''"; simp add: paymentData_def get_prop_obj)+

lemma decodePaymentInfo_paymentData:
  assumes "wf_json opt" "opt \<noteq> JNull"
  shows "decodePaymentInfo opt (base64_encode (stringify (paymentData w opt a sig))) =
     Inr \<lparr>network = Some (JStr ''avalanche''), spender = js_prop opt ''payTo'',
          asset = js_prop opt ''asset'', userAddress = Some (JStr a)\<rparr>"
proof -
  have as: "get_path (Some opt) [''asset''] = Inr (js_prop opt ''asset'')"
    by (simp add: get_prop_nonnull[OF assms(2)])
  show ?thesis
    using decode_encode[OF wf_paymentData[OF assms(1)], of w a sig]
    by (simp add: decodePaymentInfo_def paymentData_fields as del: get_path.simps)
qed


lemma signBody_trace:
  assumes "switchNetwork eth = (Inr (), sevs)" "opt \<noteq> JNull"
  shows "snd (signBody w eth opt a) = sevs @ [Request (Eth_signTypedData_v4 a (stringify (typedData w opt a)))]"
  using assms by (cases opt) (simp_all add: signBody_def Let_def split: sum.splits)

lemma signWithMetaMask_trace:
  assumes "ethereum w = Some eth" "switchNetwork eth = (Inr (), sevs)" "opt \<noteq> JNull"
  shows "snd (signWithMetaMask w opt a) = sevs @ [Request (Eth_signTypedData_v4 a (stringify (typedData w opt a)))]"
  using assms(1) signBody_trace[OF assms(2,3), of w a]
  by (cases "signBody w eth opt a") (simp add: signWithMetaMask_def split: sum.splits)

lemma signWithMetaMask_error:
  "fst (signWithMetaMask w opt a) \<noteq> Inl InvalidChallenge"
proof (cases "ethereum w")
  case None
  then show ?thesis by (simp add: signWithMetaMask_def InvalidChallenge_def)
next
  case (Some eth)
  then show ?thesis
    by (cases "signBody w eth opt a")
       (simp add: signWithMetaMask_def InvalidChallenge_def split: sum.splits)
qed

lemma JSON_parse_error: "JSON_parse s = Inl e \<Longrightarrow> (\<exists>m. e = SyntaxError m) \<or> e = OutsideModel"
  by (auto simp: JSON_parse_def split: option.splits if_splits simp del: parse_value.simps)

lemma get_prop_error: "get_prop v k = Inl e \<Longrightarrow> \<exists>m. e = TypeError m"
  by (auto simp: get_prop_def null_read_def undefined_read_def split: option.splits json.splits)

lemma get_path_error: "get_path v ks = Inl e \<Longrightarrow> \<exists>m. e = TypeError m"
  by (induction ks arbitrary: v) (auto split: sum.splits dest: get_prop_error)

lemma decodePaymentInfo_error:
  "decodePaymentInfo opt h = Inl e \<Longrightarrow>
     (\<exists>m. e = SyntaxError m) \<or> (\<exists>m. e = TypeError m) \<or> e = OutsideModel"
  unfolding decodePaymentInfo_def
  by (auto split: sum.splits dest: JSON_parse_error get_path_error simp del: get_path.simps)

lemma invalid_accepts_iff: "invalid_accepts acc \<longleftrightarrow> (\<forall>x xs. acc \<noteq> Some (JArr (x # xs)))"
proof (cases acc)
  case None
  then show ?thesis by (simp add: invalid_accepts_def)
next
  case (Some j)
  show ?thesis
  proof (cases j)
    case (JArr xs)
    then show ?thesis using Some by (cases xs) (simp_all add: invalid_accepts_def)
  qed (simp_all add: Some invalid_accepts_def)
qed

lemma createX402Payment_null:
  "createX402Payment w JNull a = (Inl (null_read ''accepts''), [])"
  by (simp add: createX402Payment_def get_prop_def)

lemma createX402Payment_invalid:
  assumes "req \<noteq> JNull" "invalid_accepts (js_prop req ''accepts'')"
  shows "createX402Payment w req a = (Inl InvalidChallenge, [])"
  using assms by (simp add: createX402Payment_def get_prop_nonnull invalid_accepts_def)

lemma createX402Payment_valid:
  assumes "req \<noteq> JNull" "js_prop req ''accepts'' = Some (JArr (opt # rest))"
  shows "createX402Payment w req a =
     (case signWithMetaMask w opt a of
        (Inl e, evs) \<Rightarrow> (Inl e, evs)
      | (Inr h, evs) \<Rightarrow>
          (case decodePaymentInfo opt h of
             Inl e \<Rightarrow> (Inl e, evs)
           | Inr info \<Rightarrow> (Inr (h, info), evs)))"
  using assms by (simp add: createX402Payment_def get_prop_nonnull)

lemma createX402Payment_trace:
  assumes "req \<noteq> JNull" "js_prop req ''accepts'' = Some (JArr (opt # rest))"
  shows "snd (createX402Payment w req a) = snd (signWithMetaMask w opt a)"
  unfolding createX402Payment_valid[OF assms]
  by (cases "signWithMetaMask w opt a") (simp split: sum.splits)

lemma createX402Payment_events:
  "filter is_fetch (snd (createX402Payment w req a)) = []
   \<and> length (filter is_signing (snd (createX402Payment w req a))) \<le> 1"
proof (cases "req = JNull")
  case True
  then show ?thesis by (simp add: createX402Payment_null)
next
  case False
  show ?thesis
  proof (cases "invalid_accepts (js_prop req ''accepts'')")
    case True
    then show ?thesis by (simp add: createX402Payment_invalid[OF False])
  next
    case inv: False
    then obtain opt rest where "js_prop req ''accepts'' = Some (JArr (opt # rest))"
      by (auto simp: invalid_accepts_iff)
    then show ?thesis
      using createX402Payment_trace[OF False] signWithMetaMask_events by simp
  qed
qed

lemma createX402Payment_invalid_iff:
  "fst (createX402Payment w req a) = Inl InvalidChallenge \<longleftrightarrow>
     req \<noteq> JNull \<and> invalid_accepts (js_prop req ''accepts'')"
proof (cases "req = JNull")
  case True
  then show ?thesis by (simp add: createX402Payment_null null_read_def InvalidChallenge_def)
next
  case False
  show ?thesis
  proof (cases "invalid_accepts (js_prop req ''accepts'')")
    case True
    then show ?thesis using False by (simp add: createX402Payment_invalid)
  next
    case inv: False
    then obtain opt rest where acc: "js_prop req ''accepts'' = Some (JArr (opt # rest))"
      by (auto simp: invalid_accepts_iff)
    obtain r evs where sw: "signWithMetaMask w opt a = (r, evs)"
      by (cases "signWithMetaMask w opt a")
    have r: "r \<noteq> Inl InvalidChallenge" using signWithMetaMask_error[of w opt a] sw by simp
    have "fst (createX402Payment w req a) \<noteq> Inl InvalidChallenge"
    proof (cases r)
      case (Inl e)
      then show ?thesis using r by (simp add: createX402Payment_valid[OF False acc] sw)
    next
      case (Inr h)
      show ?thesis
      proof (cases "decodePaymentInfo opt h")
        case (Inl e)
        then have "e \<noteq> InvalidChallenge"
          using decodePaymentInfo_error[of opt h e] by (auto simp: InvalidChallenge_def)
        then show ?thesis using Inl Inr by (simp add: createX402Payment_valid[OF False acc] sw)
      next
        case (Inr info)
        then show ?thesis using \<open>r = Inr h\<close> by (simp add: createX402Payment_valid[OF False acc] sw)
      qed
    qed
    then show ?thesis using inv False by simp
  qed
qed

lemma createX402Payment_ok:
  assumes "req \<noteq> JNull" "js_prop req ''accepts'' = Some (JArr (opt # rest))"
    and "wf_json opt" "opt \<noteq> JNull"
    and "ethereum w = Some eth" "switchNetwork eth = (Inr (), sevs)"
    and "eth_signTypedData_v4 eth a (stringify (typedData w opt a)) = Inr sig"
  shows "createX402Payment w req a =
     (Inr (base64_encode (stringify (paymentData w opt a sig)),
           \<lparr>network = Some (JStr ''avalanche''), spender = js_prop opt ''payTo'',
            asset = js_prop opt ''asset'', userAddress = Some (JStr a)\<rparr>),
      sevs @ [Request (Eth_signTypedData_v4 a (stringify (typedData w opt a)))])"
  unfolding createX402Payment_valid[OF assms(1,2)]
  by (simp add: signWithMetaMask_ok[OF assms(5,6,4,7)] decodePaymentInfo_paymentData[OF assms(3,4)])

lemma switchNetwork_set:
  "set (snd (switchNetwork eth)) \<subseteq>
     {Request Eth_chainId, Request (Wallet_switchEthereumChain targetChainIdHex),
      Request (Wallet_addEthereumChain addChainParams)}"
  by (simp add: switchNetwork_def split: sum.splits)

lemma signBody_set:
  "set (snd (signBody w eth opt a)) \<subseteq>
     {Request Eth_chainId, Request (Wallet_switchEthereumChain targetChainIdHex),
      Request (Wallet_addEthereumChain addChainParams),
      Request (Eth_signTypedData_v4 a (stringify (typedData w opt a)))}"
proof -
  obtain r evs where sn: "switchNetwork eth = (r, evs)" by (cases "switchNetwork eth")
  have e: "set evs \<subseteq> {Request Eth_chainId, Request (Wallet_switchEthereumChain targetChainIdHex),
      Request (Wallet_addEthereumChain addChainParams)}"
    using switchNetwork_set[of eth] sn by simp
  show ?thesis
    using e by (cases r; cases opt) (auto simp: signBody_def sn Let_def split: sum.splits)
qed

lemma signWithMetaMask_set:
  "set (snd (signWithMetaMask w opt a)) \<subseteq>
     {Request Eth_chainId, Request (Wallet_switchEthereumChain targetChainIdHex),
      Request (Wallet_addEthereumChain addChainParams),
      Request (Eth_signTypedData_v4 a (stringify (typedData w opt a)))}"
proof (cases "ethereum w")
  case None
  then show ?thesis by (simp add: signWithMetaMask_def)
next
  case (Some eth)
  obtain r evs where sb: "signBody w eth opt a = (r, evs)" by (cases "signBody w eth opt a")
  with signBody_set[of w eth opt a] Some show ?thesis
    by (cases r) (simp_all add: signWithMetaMask_def)
qed

lemma signing_request_data:
  assumes "Request (Eth_signTypedData_v4 x d) \<in> set (snd (signWithMetaMask w opt a))"
  shows "x = a \<and> d = stringify (typedData w opt a)"
  using assms signWithMetaMask_set[of w opt a] by auto

lemma switch_request_chain:
  assumes "Request (Wallet_switchEthereumChain c) \<in> set (snd (signWithMetaMask w opt a))"
  shows "c = ''0xa86a''"
  using assms signWithMetaMask_set[of w opt a] by (auto simp: targetChainIdHex_eq)

lemma getChainIdFromNetwork_unknown:
  assumes "map_of chainIds (toLowerCase n) = None"
    and "toLowerCase n \<noteq> ''constructor''" "toLowerCase n \<noteq> ''__proto__''"
  shows "getChainIdFromNetwork n = ChainId 43114"
  using assms by (simp add: getChainIdFromNetwork_def Let_def)

lemma toLowerCase_simps:
  "toLowerCase ''base'' = ''base''" "toLowerCase ''ethereum'' = ''ethereum''"
  "toLowerCase ''polygon'' = ''polygon''" "toLowerCase ''Base'' = ''base''"
  "toLowerCase ''solana'' = ''solana''"
  by (simp_all add: toLowerCase_def lower_char_def Let_def char_of_eq_iff take_bit_eq_mod)

lemma getChainIdFromNetwork_table:
  "getChainIdFromNetwork ''base'' = ChainId 8453"
  "getChainIdFromNetwork ''ethereum'' = ChainId 1"
  "getChainIdFromNetwork ''polygon'' = ChainId 137"
  "getChainIdFromNetwork ''Base'' = ChainId 8453"
  by (simp_all add: getChainIdFromNetwork_def toLowerCase_simps chainIds_def)

lemma demo_switchNetwork: "switchNetwork demo_wallet = (Inr (), [Request Eth_chainId])"
  by (rule switchNetwork_on_chain) (simp add: demo_wallet_def targetChainIdHex_eq)

lemma demo_sign_trace:
  "opt \<noteq> JNull \<Longrightarrow> snd (signWithMetaMask demo_world opt a) =
     [Request Eth_chainId, Request (Eth_signTypedData_v4 a (stringify (typedData demo_world opt a)))]"
  using signWithMetaMask_trace[of demo_world demo_wallet "[Request Eth_chainId]" opt a]
  by (simp add: demo_switchNetwork) (simp add: demo_world_def)

lemma length_toString_radix_16: "b < 256 \<Longrightarrow> length (toString_radix 16 b) \<le> 2"
proof -
  assume b: "b < 256"
  show ?thesis
  proof (cases "b < 16")
    case True
    then show ?thesis by (simp add: toString_radix_small)
  next
    case False
    then have "b div 16 < 16" using b by linarith
    then show ?thesis using False by (simp add: toString_radix_big toString_radix_small)
  qed
qed

lemma padStart_hex_byte: "b < 256 \<Longrightarrow> padStart 2 (CHR ''0'') (toString_radix 16 b) = hex_byte b"
proof -
  assume b: "b < 256"
  show ?thesis
  proof (cases "b < 16")
    case True
    then show ?thesis
      by (simp add: toString_radix_small padStart_def hex_byte_def digit_char_simps)
  next
    case False
    then have "b div 16 < 16" using b by linarith
    then show ?thesis using False
      by (simp add: toString_radix_big toString_radix_small padStart_def hex_byte_def)
  qed
qed

lemma nonceBytes_bound: "b \<in> set (nonceBytes w) \<Longrightarrow> b < 256"
  by (auto simp: nonceBytes_def)

lemma concat_hex_bytes:
  "list_all (\<lambda>b. b < 256) bs \<Longrightarrow>
     concat (map (\<lambda>b. padStart 2 (CHR ''0'') (toString_radix 16 b)) bs) = concat (map hex_byte bs)"
  by (induction bs) (simp_all add: padStart_hex_byte)

lemma nonce_hex: "nonce w = ''0x'' @ concat (map hex_byte (nonceBytes w))"
proof -
  have "list_all (\<lambda>b. b < 256) (nonceBytes w)"
    by (simp add: list_all_iff nonceBytes_bound)
  then show ?thesis by (simp add: nonce_def concat_hex_bytes)
qed

lemma length_concat_hex: "length (concat (map hex_byte bs)) = 2 * length bs"
  by (induction bs) (simp_all add: hex_byte_def)

lemma length_nonce: "length (nonce w) = 66"
  by (simp add: nonce_hex length_concat_hex) (simp add: nonceBytes_def)

lemma demo_sign: "eth_signTypedData_v4 demo_wallet a d = Inr ''0xsigned''"
  by (simp add: demo_wallet_def)

lemma demo_ethereum: "ethereum demo_world = Some demo_wallet"
  by (simp add: demo_world_def)

lemma wf_examples: "wf_json base_option" "wf_json bare_option" "wf_json demo_requirements"
  "wf_json bare_requirements" "wf_json job_done"
  by (simp_all add: base_option_def bare_option_def demo_requirements_def bare_requirements_def
      job_done_def)

lemma demo_createX402Payment:
  assumes "req \<noteq> JNull" "js_prop req ''accepts'' = Some (JArr (opt # rest))"
    and "wf_json opt" "opt \<noteq> JNull"
  shows "createX402Payment demo_world req a =
     (Inr (base64_encode (stringify (paymentData demo_world opt a ''0xsigned'')),
           \<lparr>network = Some (JStr ''avalanche''), spender = js_prop opt ''payTo'',
            asset = js_prop opt ''asset'', userAddress = Some (JStr a)\<rparr>),
      [Request Eth_chainId, Request (Eth_signTypedData_v4 a (stringify (typedData demo_world opt a)))])"
  using createX402Payment_ok[OF assms demo_ethereum demo_switchNetwork demo_sign] by simp

lemma String_nat_402: "String_nat 402 = ''402''"
  by (simp add: String_nat_def toString_radix_big toString_radix_small digit_char_simps)

lemma finalResponse_402:
  "status r = 402 \<Longrightarrow> finalResponse r = Inl (Error (''Broker request failed (402): '' @ body_text r))"
  by (simp add: finalResponse_def ok_def String_nat_402)

lemma broker_not_402:
  assumes "fetch w 0 (BROKER_API_BASE w @ endpoint) (Some (firstInit options)) = Inr r"
    and "status r \<noteq> 402"
  shows "brokerRequestWithPayment w endpoint options =
     (finalResponse r, [Fetch (BROKER_API_BASE w @ endpoint) (Some (firstInit options))])"
  using assms by (simp add: brokerRequestWithPayment_def Let_def)

lemma broker_paid:
  assumes "fetch w 0 (BROKER_API_BASE w @ endpoint) (Some (firstInit options)) = Inr r"
    and "status r = 402"
    and "JSON_parse (body_text r) = Inr req"
    and "ethereum w = Some eth"
    and "eth_accounts eth = Inr (a # as)"
    and "createX402Payment w req a = (Inr pr, cevs)"
  shows "brokerRequestWithPayment w endpoint options =
     (case fetch w 1 (BROKER_API_BASE w @ endpoint)
             (Some (retryInit options (stringify (paymentResult_json pr)))) of
        Inl e \<Rightarrow> Inl e
      | Inr r' \<Rightarrow> finalResponse r',
      Fetch (BROKER_API_BASE w @ endpoint) (Some (firstInit options)) # Request Eth_accounts # cevs
        @ [Fetch (BROKER_API_BASE w @ endpoint)
             (Some (retryInit options (stringify (paymentResult_json pr))))])"
  using assms by (simp add: brokerRequestWithPayment_def Let_def split: sum.splits)

lemma broker_events:
  "length (filter is_fetch (snd (brokerRequestWithPayment w endpoint options))) \<le> 2
   \<and> length (filter is_signing (snd (brokerRequestWithPayment w endpoint options))) \<le> 1"
proof -
  let ?url = "BROKER_API_BASE w @ endpoint"
  let ?B = "brokerRequestWithPayment w endpoint options"
  show ?thesis
  proof (cases "fetch w 0 ?url (Some (firstInit options))")
    case (Inl e)
    then show ?thesis by (simp add: brokerRequestWithPayment_def Let_def)
  next
    case (Inr r)
    show ?thesis
    proof (cases "status r = 402")
      case False
      then show ?thesis using broker_not_402[OF Inr] by simp
    next
      case True
      show ?thesis
      proof (cases "JSON_parse (body_text r)")
        case (Inl e)
        then show ?thesis using Inr True by (simp add: brokerRequestWithPayment_def Let_def)
      next
        case req: (Inr req)
        show ?thesis
        proof (cases "ethereum w")
          case None
          then show ?thesis using Inr True req by (simp add: brokerRequestWithPayment_def Let_def)
        next
          case (Some eth)
          show ?thesis
          proof (cases "eth_accounts eth")
            case (Inl e)
            then show ?thesis using Inr True req Some
              by (simp add: brokerRequestWithPayment_def Let_def)
          next
            case acc: (Inr accounts)
            show ?thesis
            proof (cases accounts)
              case Nil
              then show ?thesis using Inr True req Some acc
                by (simp add: brokerRequestWithPayment_def Let_def)
            next
              case (Cons a as)
              obtain res cevs where c: "createX402Payment w req a = (res, cevs)"
                by (cases "createX402Payment w req a")
              have ce: "filter is_fetch cevs = []" "length (filter is_signing cevs) \<le> 1"
                using createX402Payment_events[of w req a] c by simp_all
              show ?thesis
              proof (cases res)
                case (Inl e)
                then show ?thesis using Inr True req Some acc Cons c ce
                  by (simp add: brokerRequestWithPayment_def Let_def)
              next
                case pr: (Inr pr)
                have "createX402Payment w req a = (Inr pr, cevs)" using c pr by simp
                from broker_paid[OF Inr True req Some _ this, of as] acc Cons ce
                show ?thesis by simp
              qed
            qed
          qed
        qed
      qed
    qed
  qed
qed

lemma length_escape: "length s \<le> length (concat (map escape_char s))"
proof (induction s)
  case Nil
  show ?case by simp
next
  case (Cons c s)
  have "1 \<le> length (escape_char c)" by (simp add: escape_char_def hex_byte_def Let_def)
  with Cons show ?case by simp
qed

lemma length_quote_json: "length s + 2 \<le> length (quote_json s)"
  using length_escape[of s] by (simp add: quote_json_def)

lemma stringify_paymentResult_longer:
  "length h < length (stringify (paymentResult_json (h, info)))"
  using length_quote_json[of h] by (simp add: paymentResult_json_def)

lemma stringify_paymentResult_differs: "stringify (paymentResult_json (h, info)) \<noteq> h"
  using stringify_paymentResult_longer[of h info] by auto

lemma map_of_spread_one: "map_of (spread t [(k, v)]) = (map_of t)(k \<mapsto> v)"
  by (simp add: spread_def update_conv')

lemma retryInit_fields:
  "http_method (retryInit options h) = http_method options"
  "body (retryInit options h) = body options"
  "http_method (firstInit options) = http_method options"
  "body (firstInit options) = body options"
  "map_of (own_headers (retryInit options h)) = (map_of (own_headers (firstInit options)))(''X-Payment'' \<mapsto> h)"
  by (simp_all add: retryInit_def firstInit_def own_headers_def map_of_spread_one)

lemma createX402Payment_header:
  assumes "createX402Payment w req a = (Inr (h, info), evs)"
  shows "\<exists>opt sig. h = base64_encode (stringify (paymentData w opt a sig))"
proof -
  have n: "req \<noteq> JNull" using assms by (auto simp: createX402Payment_null)
  have "\<not> invalid_accepts (js_prop req ''accepts'')"
    using assms createX402Payment_invalid[OF n, of w a] by auto
  then obtain opt rest where acc: "js_prop req ''accepts'' = Some (JArr (opt # rest))"
    by (auto simp: invalid_accepts_iff)
  obtain r sevs where sw: "signWithMetaMask w opt a = (r, sevs)"
    by (cases "signWithMetaMask w opt a")
  from assms have "r = Inr h"
    unfolding createX402Payment_valid[OF n acc] sw
    by (cases r) (auto split: sum.splits)
  with sw signWithMetaMask_header[of w opt a h sevs] show ?thesis by blast
qed


lemma demo_base:
  "BROKER_API_BASE demo_world @ ''/run'' = demo_url"
  "BROKER_API_BASE paywall_world @ ''/run'' = demo_url"
  "BROKER_API_BASE free_world @ ''/run'' = demo_url"
  "BROKER_API_BASE broken_world @ ''/run'' = demo_url"
  by (simp_all add: BROKER_API_BASE_def demo_world_def paywall_world_def free_world_def
      broken_world_def demo_url_def)

lemma demo_fetch:
  "fetch demo_world 0 u i = Inr \<lparr>status = 402, body_text = stringify demo_requirements\<rparr>"
  "fetch demo_world 1 u i = Inr \<lparr>status = 200, body_text = stringify job_done\<rparr>"
  "fetch paywall_world n u i = Inr \<lparr>status = 402, body_text = stringify demo_requirements\<rparr>"
  "fetch free_world n u i = Inr \<lparr>status = 200, body_text = stringify job_done\<rparr>"
  "fetch broken_world n u i = Inr \<lparr>status = 500, body_text = ''boom''\<rparr>"
  by (simp_all add: demo_world_def paywall_world_def free_world_def broken_world_def)

lemma demo_wallets:
  "ethereum paywall_world = Some demo_wallet"
  "eth_accounts demo_wallet = Inr [''0xabc'']"
  by (simp_all add: demo_world_def paywall_world_def demo_wallet_def)

lemma demo_parse:
  "JSON_parse (stringify demo_requirements) = Inr demo_requirements"
  "JSON_parse (stringify job_done) = Inr job_done"
  by (simp_all add: JSON_parse_stringify wf_examples)

lemma demo_accepts:
  "demo_requirements \<noteq> JNull" "js_prop demo_requirements ''accepts'' = Some (JArr [base_option])"
  "base_option \<noteq> JNull"
  by (simp_all add: demo_requirements_def base_option_def)

lemma base_option_fields:
  "js_prop base_option ''payTo'' = Some (JStr ''0xpayee'')"
  "js_prop base_option ''asset'' = Some (JStr ''0xusdc'')"
  by (simp_all add: base_option_def)

lemma demo_payment:
  "createX402Payment demo_world demo_requirements ''0xabc'' =
     (Inr (demo_header, demo_info),
      [Request Eth_chainId,
       Request (Eth_signTypedData_v4 ''0xabc'' (stringify (typedData demo_world base_option ''0xabc'')))])"
  using demo_createX402Payment[OF demo_accepts(1,2) wf_examples(1) demo_accepts(3), of "''0xabc''"]
  by (simp add: demo_header_def demo_info_def base_option_fields)

lemma paywall_payment:
  "createX402Payment paywall_world demo_requirements ''0xabc'' =
     (Inr (base64_encode (stringify (paymentData paywall_world base_option ''0xabc'' ''0xsigned'')), demo_info),
      [Request Eth_chainId,
       Request (Eth_signTypedData_v4 ''0xabc'' (stringify (typedData paywall_world base_option ''0xabc'')))])"
  using createX402Payment_ok[OF demo_accepts(1,2) wf_examples(1) demo_accepts(3) demo_wallets(1)
      demo_switchNetwork demo_sign, of "''0xabc''"]
  by (simp add: demo_info_def base_option_fields)











lemma no_receipt_step:
  assumes "no_receipt eth tx a" "a < maxAttempts"
  shows "pollReceipt eth tx a =
     (fst (pollReceipt eth tx (Suc a)),
      Request (Eth_getTransactionReceipt tx) # Sleep 2000 # snd (pollReceipt eth tx (Suc a)))"
  using assms
  by (subst pollReceipt.simps)
     (auto simp: no_receipt_def split: sum.splits option.splits prod.splits)

lemma receipt_step:
  assumes "eth_getTransactionReceipt eth a tx = Inr (Some r)" "a < maxAttempts"
  shows "pollReceipt eth tx a = (Some r, [Request (Eth_getTransactionReceipt tx)])"
  using assms by (subst pollReceipt.simps) simp

lemma pollReceipt_exhausted: "maxAttempts \<le> a \<Longrightarrow> pollReceipt eth tx a = (None, [])"
  by (subst pollReceipt.simps) simp

lemma pollReceipt_timeout:
  assumes "\<forall>n. a \<le> n \<and> n < maxAttempts \<longrightarrow> no_receipt eth tx n"
  shows "pollReceipt eth tx a =
     (None, concat (replicate (maxAttempts - a) [Request (Eth_getTransactionReceipt tx), Sleep 2000]))"
  using assms
proof (induction "maxAttempts - a" arbitrary: a)
  case 0
  then show ?case by (simp add: pollReceipt_exhausted)
next
  case (Suc d)
  then have a: "a < maxAttempts" and d: "d = maxAttempts - Suc a" by linarith+
  have nr: "no_receipt eth tx a" using Suc.prems a by simp
  have ih: "pollReceipt eth tx (Suc a) =
     (None, concat (replicate (maxAttempts - Suc a) [Request (Eth_getTransactionReceipt tx), Sleep 2000]))"
    using Suc.hyps(1)[OF d] Suc.prems by simp
  have r: "maxAttempts - a = Suc (maxAttempts - Suc a)" using a by linarith
  show ?case unfolding no_receipt_step[OF nr a] ih r by simp
qed

lemma pollReceipt_found:
  assumes "a \<le> k" "k < maxAttempts"
    and "\<forall>n. a \<le> n \<and> n < k \<longrightarrow> no_receipt eth tx n"
    and "eth_getTransactionReceipt eth k tx = Inr (Some r)"
  shows "pollReceipt eth tx a =
     (Some r, concat (replicate (k - a) [Request (Eth_getTransactionReceipt tx), Sleep 2000])
        @ [Request (Eth_getTransactionReceipt tx)])"
  using assms
proof (induction "k - a" arbitrary: a)
  case 0
  then have "a = k" by simp
  then show ?case using receipt_step[OF 0(5,3)] by simp
next
  case (Suc d)
  then have a: "a < k" and d: "d = k - Suc a" by linarith+
  have am: "a < maxAttempts" using a Suc.prems(2) by simp
  have nr: "no_receipt eth tx a" using Suc.prems(3) a by simp
  have ih: "pollReceipt eth tx (Suc a) =
     (Some r, concat (replicate (k - Suc a) [Request (Eth_getTransactionReceipt tx), Sleep 2000])
        @ [Request (Eth_getTransactionReceipt tx)])"
    using Suc.hyps(1)[OF d _ Suc.prems(2) _ Suc.prems(4)] Suc.prems(3) a by simp
  have r: "k - a = Suc (k - Suc a)" using a by linarith
  show ?case unfolding no_receipt_step[OF nr am] ih r by simp
qed

lemma pollReceipt_queries:
  "length (filter is_receipt_query (snd (pollReceipt eth tx a))) \<le> maxAttempts - a
   \<and> set (snd (pollReceipt eth tx a)) \<subseteq> {Request (Eth_getTransactionReceipt tx), Sleep 2000}"
proof (induction "maxAttempts - a" arbitrary: a)
  case 0
  then show ?case by (simp add: pollReceipt_exhausted)
next
  case (Suc d)
  then have a: "a < maxAttempts" and d: "d = maxAttempts - Suc a" by linarith+
  note ih = Suc.hyps(1)[OF d]
  show ?case
  proof (cases "no_receipt eth tx a")
    case True
    show ?thesis unfolding no_receipt_step[OF True a] using ih a by auto
  next
    case False
    then obtain r where "eth_getTransactionReceipt eth a tx = Inr (Some r)"
      by (auto simp: no_receipt_def split: sum.splits option.splits)
    from receipt_step[OF this a] a show ?thesis by simp
  qed
qed


lemma revoke_submitted:
  assumes "ethereum w = Some eth" "eth_requestAccounts eth = Inr accounts"
    and "spender paymentInfo = Some (JStr sp)"
    and "eth_sendTransaction eth (approveTx accounts paymentInfo sp) = Inr txHash"
  shows "revokeApproval w paymentInfo =
     (if fst (pollReceipt eth txHash 0) = None
         \<or> map_option receipt_status (fst (pollReceipt eth txHash 0)) = Some (Some ''0x0'')
      then Inl RevocationFailed else Inr (),
      [Request Eth_requestAccounts, Request (Eth_sendTransaction (approveTx accounts paymentInfo sp))]
        @ snd (pollReceipt eth txHash 0))"
  using assms
  by (cases "pollReceipt eth txHash 0")
     (simp add: revokeApproval_def revokeBody_def Let_def RevocationFailed_def)

lemma revokeBody_events:
  "length (filter is_receipt_query (snd (revokeBody eth paymentInfo))) \<le> maxAttempts
   \<and> (\<forall>n. Sleep n \<in> set (snd (revokeBody eth paymentInfo)) \<longrightarrow> n = 2000)"
proof (cases "eth_requestAccounts eth")
  case (Inl e)
  then show ?thesis by (simp add: revokeBody_def)
next
  case (Inr accounts)
  show ?thesis
  proof (cases "\<exists>sp. spender paymentInfo = Some (JStr sp)")
    case False
    then show ?thesis using Inr
      by (auto simp: revokeBody_def split: option.splits json.splits)
  next
    case True
    then obtain sp where sp: "spender paymentInfo = Some (JStr sp)" by blast
    show ?thesis
    proof (cases "eth_sendTransaction eth (approveTx accounts paymentInfo sp)")
      case (Inl e)
      then show ?thesis using Inr sp by (simp add: revokeBody_def Let_def)
    next
      case tx: (Inr txHash)
      obtain rc pevs where p: "pollReceipt eth txHash 0 = (rc, pevs)"
        by (cases "pollReceipt eth txHash 0")
      have "length (filter is_receipt_query pevs) \<le> maxAttempts"
        "set pevs \<subseteq> {Request (Eth_getTransactionReceipt txHash), Sleep 2000}"
        using pollReceipt_queries[of eth txHash 0] p by simp_all
      then show ?thesis using Inr sp tx p
        by (auto simp: revokeBody_def Let_def)
    qed
  qed
qed

lemma revokeApproval_events:
  "length (filter is_receipt_query (snd (revokeApproval w paymentInfo))) \<le> 30
   \<and> (\<forall>n. Sleep n \<in> set (snd (revokeApproval w paymentInfo)) \<longrightarrow> n = 2000)"
proof (cases "ethereum w")
  case None
  then show ?thesis by (simp add: revokeApproval_def)
next
  case (Some eth)
  obtain r evs where rb: "revokeBody eth paymentInfo = (r, evs)"
    by (cases "revokeBody eth paymentInfo")
  with revokeBody_events[of eth paymentInfo] Some show ?thesis
    by (cases r) (simp_all add: revokeApproval_def maxAttempts_def)
qed

lemma replace_first_prefix: "replace_first ''0x'' [] (''0x'' @ s) = s"
  by simp

lemma paddedAmount_zeros: "paddedAmount = replicate 64 (CHR ''0'')"
proof -
  have "replicate 63 (CHR ''0'') @ ''0'' = replicate (Suc 63) (CHR ''0'')"
    by (simp only: replicate_append_same replicate_Suc)
  then show ?thesis by (simp add: paddedAmount_def padStart_def)
qed

lemma approveData_layout:
  "approveData sp =
     ''0x095ea7b3'' @ replicate (64 - length (replace_first ''0x'' [] sp)) (CHR ''0'')
       @ replace_first ''0x'' [] sp @ replicate 64 (CHR ''0'')"
  by (simp add: approveData_def approveSignature_def paddedSpender_def padStart_def
      paddedAmount_zeros)

lemma approveData_length:
  "length (replace_first ''0x'' [] sp) \<le> 64 \<Longrightarrow> length (approveData sp) = 138"
  by (simp add: approveData_layout)

lemma approveTx_fields:
  "js_prop (approveTx accounts paymentInfo sp) ''data'' = Some (JStr (approveData sp))"
  "js_prop (approveTx accounts paymentInfo sp) ''value'' = Some (JStr ''0x0'')"
  "js_prop (approveTx accounts paymentInfo sp) ''to'' = asset paymentInfo"
  by (cases accounts; cases "asset paymentInfo"; simp add: approveTx_def)+


lemma revoke_timeout:
  assumes "ethereum w = Some eth" "eth_requestAccounts eth = Inr accounts"
    and "spender paymentInfo = Some (JStr sp)"
    and "eth_sendTransaction eth (approveTx accounts paymentInfo sp) = Inr txHash"
    and "\<forall>n. n < 30 \<longrightarrow> no_receipt eth txHash n"
  shows "revokeApproval w paymentInfo =
     (Inl RevocationFailed,
      [Request Eth_requestAccounts, Request (Eth_sendTransaction (approveTx accounts paymentInfo sp))]
        @ concat (replicate 30 [Request (Eth_getTransactionReceipt txHash), Sleep 2000]))"
proof -
  have "pollReceipt eth txHash 0 =
     (None, concat (replicate (maxAttempts - 0) [Request (Eth_getTransactionReceipt txHash), Sleep 2000]))"
    by (rule pollReceipt_timeout) (simp add: assms(5) maxAttempts_def)
  then show ?thesis
    unfolding revoke_submitted[OF assms(1-4)] by (simp add: maxAttempts_def)
qed

lemma revoke_receipt:
  assumes "ethereum w = Some eth" "eth_requestAccounts eth = Inr accounts"
    and "spender paymentInfo = Some (JStr sp)"
    and "eth_sendTransaction eth (approveTx accounts paymentInfo sp) = Inr txHash"
    and "k < 30" "\<forall>n. n < k \<longrightarrow> no_receipt eth txHash n"
    and "eth_getTransactionReceipt eth k txHash = Inr (Some (Receipt st))"
  shows "revokeApproval w paymentInfo =
     (if st = Some ''0x0'' then Inl RevocationFailed else Inr (),
      [Request Eth_requestAccounts, Request (Eth_sendTransaction (approveTx accounts paymentInfo sp))]
        @ concat (replicate k [Request (Eth_getTransactionReceipt txHash), Sleep 2000])
        @ [Request (Eth_getTransactionReceipt txHash)])"
proof -
  have "pollReceipt eth txHash 0 =
     (Some (Receipt st),
      concat (replicate (k - 0) [Request (Eth_getTransactionReceipt txHash), Sleep 2000])
        @ [Request (Eth_getTransactionReceipt txHash)])"
    by (rule pollReceipt_found) (simp_all add: assms(5-7) maxAttempts_def)
  then show ?thesis
    unfolding revoke_submitted[OF assms(1-4)] by simp
qed

lemma revoke_examples:
  "ethereum pending_world = Some pending_wallet"
  "ethereum reverted_world = Some reverted_wallet"
  "eth_requestAccounts pending_wallet = Inr [''0xabc'']"
  "eth_requestAccounts reverted_wallet = Inr [''0xabc'']"
  "spender demo_info = Some (JStr ''0xpayee'')"
  "eth_sendTransaction pending_wallet t = Inr ''0xtx''"
  "eth_sendTransaction reverted_wallet t = Inr ''0xtx''"
  "no_receipt pending_wallet h n"
  "eth_getTransactionReceipt reverted_wallet n h = Inr (Some (Receipt (Some ''0x0'')))"
  by (simp_all add: pending_world_def reverted_world_def pending_wallet_def reverted_wallet_def
      demo_wallet_def demo_world_def demo_info_def no_receipt_def)

section \<open>Properties of the payment client\<close>

subsection \<open>Fee calculator\<close>

text \<open>
  C8. The fee calculator is the total function \<open>relayFee(x) = max(0.03 * x, 0.002)\<close> with
  \<open>totalAmount(x) = x + relayFee(x)\<close>, for every amount; the floor applies at \<open>0.01\<close>, where
  the fee is \<open>0.002\<close>, and the percentage at \<open>1.00\<close>, where it is \<open>0.03\<close>.
\<close>

theorem fee_calculator_formula:
  "calculateRelayFee x = relayFee_spec x
   \<and> calculateTotalAmount x = totalAmount_spec x
   \<and> calculateTotalAmount x = x + calculateRelayFee x
   \<and> calculateRelayFee 0.01 = 0.002
   \<and> calculateRelayFee 1.00 = 0.03"
  by (simp add: calculateRelayFee_def calculateTotalAmount_def relayFee_spec_def
      totalAmount_spec_def Let_def mult.commute)

subsection \<open>Chain selection\<close>

text \<open>
  C1, as stated, fails: for an option whose network label is \<open>base\<close> the lookup table gives
  chain 8453, but the chain-id placed in the signing domain is 43114.
\<close>

theorem chain_id_not_resolved_from_network:
  "js_prop base_option ''network'' = Some (JStr ''base'')
   \<and> getChainIdFromNetwork ''base'' = ChainId 8453
   \<and> map_of (domain base_option) ''chainId'' = Some (Some (JNum 43114))"
  by (simp add: base_option_def getChainIdFromNetwork_table domain_def targetChainId_def)

text \<open>
  C1, amended. For every payment option the chain-id in the EIP-712 signing domain is the
  constant 43114 (Avalanche C-Chain), whatever the option's network label: the typed data
  handed to the wallet carries that domain, and the only chain the wallet is asked to
  switch to is \<open>0xa86a\<close>. The lookup table resolves \<open>base\<close> to 8453, \<open>ethereum\<close> to 1 and
  \<open>polygon\<close> to 137 and falls back to 43114 on a label it does not have, but
  signWithMetaMask does not consult it.
\<close>

theorem signing_domain_is_avalanche:
  "map_of (domain paymentOption) ''chainId'' = Some (Some (JNum 43114))
   \<and> js_prop (typedData w paymentOption userAddr) ''domain'' = Some (JObj (defined_props (domain paymentOption)))
   \<and> (\<forall>x d. Request (Eth_signTypedData_v4 x d) \<in> set (snd (signWithMetaMask w paymentOption userAddr))
         \<longrightarrow> d = stringify (typedData w paymentOption userAddr))
   \<and> (\<forall>c. Request (Wallet_switchEthereumChain c) \<in> set (snd (signWithMetaMask w paymentOption userAddr))
         \<longrightarrow> c = ''0xa86a'')
   \<and> getChainIdFromNetwork ''base'' = ChainId 8453
   \<and> getChainIdFromNetwork ''ethereum'' = ChainId 1
   \<and> getChainIdFromNetwork ''polygon'' = ChainId 137
   \<and> (map_of chainIds (toLowerCase n) = None \<and> toLowerCase n \<noteq> ''constructor''
        \<and> toLowerCase n \<noteq> ''__proto__'' \<longrightarrow> getChainIdFromNetwork n = ChainId 43114)"
proof -
  have 1: "map_of (domain paymentOption) ''chainId'' = Some (Some (JNum 43114))"
    by (simp add: domain_def targetChainId_def)
  have 2: "js_prop (typedData w paymentOption userAddr) ''domain'' = Some (JObj (defined_props (domain paymentOption)))"
    by (simp add: typedData_def)
  show ?thesis
    using 1 2 signing_request_data[of _ _ w paymentOption userAddr]
      switch_request_chain[of _ w paymentOption userAddr]
      getChainIdFromNetwork_table(1-3) getChainIdFromNetwork_unknown[of n]
    by blast
qed

text \<open>C1, amended, on the Base option and an unknown label.\<close>

theorem signing_domain_is_avalanche_witness:
  "map_of (domain base_option) ''chainId'' = Some (Some (JNum 43114))
   \<and> Request (Eth_signTypedData_v4 ''0xabc'' (stringify (typedData demo_world base_option ''0xabc'')))
        \<in> set (snd (signWithMetaMask demo_world base_option ''0xabc''))
   \<and> map_of chainIds (toLowerCase ''solana'') = None
   \<and> getChainIdFromNetwork ''solana'' = ChainId 43114"
proof -
  have o: "base_option \<noteq> JNull" by (simp add: base_option_def)
  have m: "map_of chainIds (toLowerCase ''solana'') = None"
    by (simp add: toLowerCase_simps chainIds_def)
  have l: "toLowerCase ''solana'' \<noteq> ''constructor''" "toLowerCase ''solana'' \<noteq> ''__proto__''"
    by (simp_all add: toLowerCase_simps)
  show ?thesis
    using signing_domain_is_avalanche[of base_option demo_world "''0xabc''" "''solana''"]
      demo_sign_trace[OF o, of "''0xabc''"] m l
    by simp
qed

subsection \<open>The transfer authorization\<close>

text \<open>
  C5. For every payment option and every clock reading, the message built for signing has
  \<open>validAfter\<close> equal to the time in unix seconds, \<open>validBefore = validAfter + 900\<close>, \<open>value\<close>
  equal to the option's \<open>maxAmountRequired\<close> and \<open>to\<close> equal to its \<open>payTo\<close>, both copied as
  they are, and a nonce of 32 bytes taken from the random source and written as \<open>0x\<close> and 64
  hexadecimal digits; the nonce does not depend on the clock. This message is the one in
  the typed data that the wallet is asked to sign.
\<close>

theorem transfer_authorization_message:
  "map_of (auth_message w paymentOption userAddr) ''validAfter'' = Some (Some (JNum (int (now w div 1000))))
   \<and> map_of (auth_message w paymentOption userAddr) ''validBefore'' = Some (Some (JNum (int (now w div 1000) + 900)))
   \<and> map_of (auth_message w paymentOption userAddr) ''value'' = Some (js_prop paymentOption ''maxAmountRequired'')
   \<and> map_of (auth_message w paymentOption userAddr) ''to'' = Some (js_prop paymentOption ''payTo'')
   \<and> map_of (auth_message w paymentOption userAddr) ''from'' = Some (Some (JStr userAddr))
   \<and> map_of (auth_message w paymentOption userAddr) ''nonce'' = Some (Some (JStr (nonce w)))
   \<and> nonceBytes w = map (\<lambda>i. random w i mod 256) [0..<32]
   \<and> length (nonceBytes w) = 32
   \<and> nonce w = ''0x'' @ concat (map hex_byte (nonceBytes w))
   \<and> length (nonce w) = 66
   \<and> nonce (w\<lparr>now := t\<rparr>) = nonce w
   \<and> js_prop (typedData w paymentOption userAddr) ''message'' =
       Some (JObj (defined_props (auth_message w paymentOption userAddr)))
   \<and> (\<forall>x d. Request (Eth_signTypedData_v4 x d) \<in> set (snd (signWithMetaMask w paymentOption userAddr))
         \<longrightarrow> d = stringify (typedData w paymentOption userAddr))"
proof -
  have m: "map_of (auth_message w paymentOption userAddr) ''validAfter'' = Some (Some (JNum (int (now w div 1000))))"
    "map_of (auth_message w paymentOption userAddr) ''validBefore'' = Some (Some (JNum (int (now w div 1000) + 900)))"
    "map_of (auth_message w paymentOption userAddr) ''value'' = Some (js_prop paymentOption ''maxAmountRequired'')"
    "map_of (auth_message w paymentOption userAddr) ''to'' = Some (js_prop paymentOption ''payTo'')"
    "map_of (auth_message w paymentOption userAddr) ''from'' = Some (Some (JStr userAddr))"
    "map_of (auth_message w paymentOption userAddr) ''nonce'' = Some (Some (JStr (nonce w)))"
    by (simp_all add: auth_message_def validAfter_def validBefore_def)
  have n: "nonceBytes w = map (\<lambda>i. random w i mod 256) [0..<32]" "length (nonceBytes w) = 32"
    by (simp_all add: nonceBytes_def)
  have t: "nonce (w\<lparr>now := t\<rparr>) = nonce w"
    by (simp add: nonce_def nonceBytes_def)
  have d: "js_prop (typedData w paymentOption userAddr) ''message'' =
       Some (JObj (defined_props (auth_message w paymentOption userAddr)))"
    by (simp add: typedData_def)
  show ?thesis
    using m n nonce_hex[of w] length_nonce[of w] t d
      signing_request_data[of _ _ w paymentOption userAddr]
    by blast
qed

text \<open>C5 on the Base option: the one signing request carries the message.\<close>

theorem transfer_authorization_message_witness:
  "Request (Eth_signTypedData_v4 ''0xabc'' (stringify (typedData demo_world base_option ''0xabc'')))
        \<in> set (snd (signWithMetaMask demo_world base_option ''0xabc''))
   \<and> map_of (auth_message demo_world base_option ''0xabc'') ''validAfter'' = Some (Some (JNum 1700000000))
   \<and> map_of (auth_message demo_world base_option ''0xabc'') ''validBefore'' = Some (Some (JNum 1700000900))
   \<and> map_of (auth_message demo_world base_option ''0xabc'') ''value'' = Some (Some (JStr ''10000''))
   \<and> map_of (auth_message demo_world base_option ''0xabc'') ''to'' = Some (Some (JStr ''0xpayee''))"
proof -
  have o: "base_option \<noteq> JNull" by (simp add: base_option_def)
  have n: "now demo_world div 1000 = 1700000000" by (simp add: demo_world_def)
  show ?thesis
    using transfer_authorization_message[of demo_world base_option "''0xabc''" 0]
      demo_sign_trace[OF o, of "''0xabc''"] n
    by (simp add: base_option_def)
qed

subsection \<open>Validation of the challenge\<close>

text \<open>
  C4, as stated, fails: a challenge whose first option has no \<open>asset\<close>, no \<open>payTo\<close> and no
  \<open>maxAmountRequired\<close> is not rejected. The wallet is asked to sign, and the call returns a
  payment header and a payment info whose spender and asset are undefined.
\<close>

theorem option_without_fields_is_signed:
  "js_prop bare_option ''asset'' = None
   \<and> js_prop bare_option ''payTo'' = None
   \<and> js_prop bare_option ''maxAmountRequired'' = None
   \<and> createX402Payment demo_world bare_requirements ''0xabc'' =
       (Inr (base64_encode (stringify (paymentData demo_world bare_option ''0xabc'' ''0xsigned'')),
             \<lparr>network = Some (JStr ''avalanche''), spender = None, asset = None,
              userAddress = Some (JStr ''0xabc'')\<rparr>),
        [Request Eth_chainId,
         Request (Eth_signTypedData_v4 ''0xabc'' (stringify (typedData demo_world bare_option ''0xabc'')))])"
proof -
  have f: "js_prop bare_option ''asset'' = None" "js_prop bare_option ''payTo'' = None"
    "js_prop bare_option ''maxAmountRequired'' = None"
    by (simp_all add: bare_option_def)
  have r: "bare_requirements \<noteq> JNull" "js_prop bare_requirements ''accepts'' = Some (JArr (bare_option # []))"
    by (simp_all add: bare_requirements_def)
  have o: "bare_option \<noteq> JNull" by (simp add: bare_option_def)
  show ?thesis
    using demo_createX402Payment[OF r wf_examples(2) o, of "''0xabc''"] f by simp
qed

text \<open>
  C4, amended. createX402Payment fails with the invalid-requirements error exactly when the
  challenge is an object whose \<open>accepts\<close> is missing, is not an array or is an empty array,
  and it then makes no wallet request. The fields of the first option are not checked: with
  a wallet on the target chain the typed data is handed to the wallet for signing whatever
  fields the option has, the missing ones left undefined.
\<close>

theorem invalid_challenge_exactly_when_no_option:
  "(fst (createX402Payment w requirements walletAddress) = Inl InvalidChallenge
      \<longleftrightarrow> requirements \<noteq> JNull \<and> invalid_accepts (js_prop requirements ''accepts''))
   \<and> invalid_accepts None
   \<and> invalid_accepts (Some (JArr []))
   \<and> (invalid_accepts (js_prop requirements ''accepts'') \<longrightarrow>
         snd (createX402Payment w requirements walletAddress) = [])
   \<and> (requirements \<noteq> JNull \<and> js_prop requirements ''accepts'' = Some (JArr (paymentOption # rest))
        \<and> paymentOption \<noteq> JNull \<and> ethereum w = Some eth \<and> switchNetwork eth = (Inr (), sevs) \<longrightarrow>
         snd (createX402Payment w requirements walletAddress) =
           sevs @ [Request (Eth_signTypedData_v4 walletAddress
                      (stringify (typedData w paymentOption walletAddress)))])"
proof -
  have a: "invalid_accepts None" "invalid_accepts (Some (JArr []))"
    by (simp_all add: invalid_accepts_def)
  have b: "snd (createX402Payment w requirements walletAddress) = []"
    if "invalid_accepts (js_prop requirements ''accepts'')"
    using that createX402Payment_invalid[of requirements w walletAddress]
      createX402Payment_null[of w walletAddress]
    by (cases "requirements = JNull") simp_all
  have c: "snd (createX402Payment w requirements walletAddress) =
           sevs @ [Request (Eth_signTypedData_v4 walletAddress
                      (stringify (typedData w paymentOption walletAddress)))]"
    if "requirements \<noteq> JNull" "js_prop requirements ''accepts'' = Some (JArr (paymentOption # rest))"
      "paymentOption \<noteq> JNull" "ethereum w = Some eth" "switchNetwork eth = (Inr (), sevs)"
    using createX402Payment_trace[OF that(1,2), of w walletAddress]
      signWithMetaMask_trace[OF that(4,5,3), of walletAddress]
    by simp
  show ?thesis
    using createX402Payment_invalid_iff[of w requirements walletAddress] a b c by blast
qed

text \<open>C4, amended, on a challenge with an empty list and on one with a bare option.\<close>

theorem invalid_challenge_exactly_when_no_option_witness:
  "invalid_accepts (js_prop (JObj [(''accepts'', JArr [])]) ''accepts'')
   \<and> createX402Payment demo_world (JObj [(''accepts'', JArr [])]) ''0xabc'' = (Inl InvalidChallenge, [])
   \<and> bare_requirements \<noteq> JNull
   \<and> js_prop bare_requirements ''accepts'' = Some (JArr [bare_option])
   \<and> bare_option \<noteq> JNull
   \<and> ethereum demo_world = Some demo_wallet
   \<and> switchNetwork demo_wallet = (Inr (), [Request Eth_chainId])
   \<and> snd (createX402Payment demo_world bare_requirements ''0xabc'') =
       [Request Eth_chainId,
        Request (Eth_signTypedData_v4 ''0xabc'' (stringify (typedData demo_world bare_option ''0xabc'')))]"
proof -
  let ?e = "JObj [(''accepts'', JArr [])]"
  have i: "invalid_accepts (js_prop ?e ''accepts'')" by (simp add: invalid_accepts_def)
  have n: "?e \<noteq> JNull" by simp
  have r: "bare_requirements \<noteq> JNull" "js_prop bare_requirements ''accepts'' = Some (JArr [bare_option])"
    by (simp_all add: bare_requirements_def)
  have o: "bare_option \<noteq> JNull" by (simp add: bare_option_def)
  have 1: "createX402Payment demo_world ?e ''0xabc'' = (Inl InvalidChallenge, [])"
    using invalid_challenge_exactly_when_no_option[of demo_world ?e "''0xabc''"] i n
    by (cases "createX402Payment demo_world ?e ''0xabc''") simp
  have 2: "snd (createX402Payment demo_world bare_requirements ''0xabc'') =
       [Request Eth_chainId,
        Request (Eth_signTypedData_v4 ''0xabc'' (stringify (typedData demo_world bare_option ''0xabc'')))]"
    using invalid_challenge_exactly_when_no_option[of demo_world bare_requirements "''0xabc''"
        bare_option "[]" demo_wallet "[Request Eth_chainId]"]
      r o demo_ethereum demo_switchNetwork
    by simp
  show ?thesis using i 1 r o demo_ethereum demo_switchNetwork 2 by simp
qed

subsection \<open>Encoding and decoding the payment token\<close>

text \<open>
  C6. Encoding then decoding is a round trip. For every JSON value with distinct keys in
  each object, and so for every signature, authorization, scheme and network put into a
  payment object, parsing the base64-decoded token gives the value back. For the token
  that signWithMetaMask builds, the payment info that createX402Payment extracts has the
  network label that was encoded, the payer address that was encoded as \<open>from\<close> and the payee
  that was encoded as \<open>to\<close>.
\<close>

theorem payment_token_round_trip:
  "(wf_json j \<longrightarrow> JSON_parse (base64_decode (base64_encode (stringify j))) = Inr j)
   \<and> base64_decode (base64_encode s) = s
   \<and> get_path (Some (paymentData w paymentOption userAddr signature)) [''network''] = Inr (Some (JStr ''avalanche''))
   \<and> get_path (Some (paymentData w paymentOption userAddr signature)) [''payload'', ''authorization'', ''from'']
       = Inr (Some (JStr userAddr))
   \<and> get_path (Some (paymentData w paymentOption userAddr signature)) [''payload'', ''authorization'', ''to'']
       = Inr (js_prop paymentOption ''payTo'')
   \<and> (wf_json paymentOption \<and> paymentOption \<noteq> JNull \<longrightarrow>
        JSON_parse (base64_decode (base64_encode (stringify (paymentData w paymentOption userAddr signature))))
          = Inr (paymentData w paymentOption userAddr signature)
        \<and> decodePaymentInfo paymentOption
            (base64_encode (stringify (paymentData w paymentOption userAddr signature))) =
          Inr \<lparr>network = Some (JStr ''avalanche''), spender = js_prop paymentOption ''payTo'',
               asset = js_prop paymentOption ''asset'', userAddress = Some (JStr userAddr)\<rparr>)"
  using decode_encode[of j] base64_roundtrip[of s]
    paymentData_fields[of w paymentOption userAddr signature]
    decode_encode[OF wf_paymentData, of paymentOption w userAddr signature]
    decodePaymentInfo_paymentData[of paymentOption w userAddr signature]
  by blast

text \<open>C6 on the token signed for the Base option.\<close>

theorem payment_token_round_trip_witness:
  "wf_json base_option \<and> base_option \<noteq> JNull
   \<and> wf_json (paymentData demo_world base_option ''0xabc'' ''0xsigned'')
   \<and> decodePaymentInfo base_option
        (base64_encode (stringify (paymentData demo_world base_option ''0xabc'' ''0xsigned''))) =
      Inr \<lparr>network = Some (JStr ''avalanche''), spender = Some (JStr ''0xpayee''),
           asset = Some (JStr ''0xusdc''), userAddress = Some (JStr ''0xabc'')\<rparr>"
proof -
  have o: "base_option \<noteq> JNull" by (simp add: base_option_def)
  have p: "js_prop base_option ''payTo'' = Some (JStr ''0xpayee'')"
    "js_prop base_option ''asset'' = Some (JStr ''0xusdc'')"
    by (simp_all add: base_option_def)
  show ?thesis
    using payment_token_round_trip[where j = "paymentData demo_world base_option ''0xabc'' ''0xsigned''"
        and w = demo_world and paymentOption = base_option and userAddr = "''0xabc''"
        and signature = "''0xsigned''" and s = "[]"]
      wf_examples(1) o p wf_paymentData[OF wf_examples(1), of demo_world "''0xabc''" "''0xsigned''"]
    by simp
qed

subsection \<open>The payment-gated request executor\<close>

text \<open>
  C3. Every call of the executor performs at most one payment cycle: it issues at most two
  broker requests and asks for at most one signature. When the paid retry itself comes back
  with status 402, the call fails with the broker-request failure that carries that status,
  after exactly two requests and with no further signing.
\<close>

theorem at_most_one_payment_cycle:
  "length (filter is_fetch (snd (brokerRequestWithPayment w endpoint options))) \<le> 2
   \<and> length (filter is_signing (snd (brokerRequestWithPayment w endpoint options))) \<le> 1
   \<and> (fetch w 0 (BROKER_API_BASE w @ endpoint) (Some (firstInit options)) = Inr r
        \<and> status r = 402
        \<and> JSON_parse (body_text r) = Inr req
        \<and> ethereum w = Some eth
        \<and> eth_accounts eth = Inr (a # as)
        \<and> createX402Payment w req a = (Inr pr, cevs)
        \<and> fetch w 1 (BROKER_API_BASE w @ endpoint)
             (Some (retryInit options (stringify (paymentResult_json pr)))) = Inr r'
        \<and> status r' = 402
        \<longrightarrow>
          brokerRequestWithPayment w endpoint options =
            (Inl (Error (''Broker request failed (402): '' @ body_text r')),
             Fetch (BROKER_API_BASE w @ endpoint) (Some (firstInit options)) # Request Eth_accounts # cevs
               @ [Fetch (BROKER_API_BASE w @ endpoint)
                    (Some (retryInit options (stringify (paymentResult_json pr))))])
          \<and> length (filter is_fetch (snd (brokerRequestWithPayment w endpoint options))) = 2)"
proof -
  have p: "brokerRequestWithPayment w endpoint options =
            (Inl (Error (''Broker request failed (402): '' @ body_text r')),
             Fetch (BROKER_API_BASE w @ endpoint) (Some (firstInit options)) # Request Eth_accounts # cevs
               @ [Fetch (BROKER_API_BASE w @ endpoint)
                    (Some (retryInit options (stringify (paymentResult_json pr))))])
          \<and> length (filter is_fetch (snd (brokerRequestWithPayment w endpoint options))) = 2"
    if h: "fetch w 0 (BROKER_API_BASE w @ endpoint) (Some (firstInit options)) = Inr r"
        "status r = 402" "JSON_parse (body_text r) = Inr req" "ethereum w = Some eth"
        "eth_accounts eth = Inr (a # as)" "createX402Payment w req a = (Inr pr, cevs)"
      and r': "fetch w 1 (BROKER_API_BASE w @ endpoint)
             (Some (retryInit options (stringify (paymentResult_json pr)))) = Inr r'"
        "status r' = 402"
  proof -
    have "filter is_fetch cevs = []"
      using createX402Payment_events[of w req a] h(6) by simp
    then show ?thesis
      using broker_paid[OF h] r' by (simp add: finalResponse_402)
  qed
  show ?thesis using broker_events[of w endpoint options] p by blast
qed

text \<open>C3 on a broker that answers the paid retry with the challenge again.\<close>

theorem at_most_one_payment_cycle_witness:
  "fetch paywall_world 0 (BROKER_API_BASE paywall_world @ ''/run'') (Some (firstInit demo_options))
      = Inr \<lparr>status = 402, body_text = stringify demo_requirements\<rparr>
   \<and> JSON_parse (stringify demo_requirements) = Inr demo_requirements
   \<and> ethereum paywall_world = Some demo_wallet
   \<and> eth_accounts demo_wallet = Inr [''0xabc'']
   \<and> brokerRequestWithPayment paywall_world ''/run'' demo_options =
       (Inl (Error (''Broker request failed (402): '' @ stringify demo_requirements)),
        [Fetch (BROKER_API_BASE paywall_world @ ''/run'') (Some (firstInit demo_options)),
         Request Eth_accounts,
         Request Eth_chainId,
         Request (Eth_signTypedData_v4 ''0xabc'' (stringify (typedData paywall_world base_option ''0xabc''))),
         Fetch (BROKER_API_BASE paywall_world @ ''/run'')
           (Some (retryInit demo_options (stringify (paymentResult_json
              (base64_encode (stringify (paymentData paywall_world base_option ''0xabc'' ''0xsigned'')),
               demo_info)))))])"
  using at_most_one_payment_cycle[of paywall_world "''/run''" demo_options
      "\<lparr>status = 402, body_text = stringify demo_requirements\<rparr>" demo_requirements demo_wallet
      "''0xabc''" "[]"
      "(base64_encode (stringify (paymentData paywall_world base_option ''0xabc'' ''0xsigned'')), demo_info)"
      "[Request Eth_chainId,
        Request (Eth_signTypedData_v4 ''0xabc'' (stringify (typedData paywall_world base_option ''0xabc'')))]"
      "\<lparr>status = 402, body_text = stringify demo_requirements\<rparr>"]
  by (simp add: demo_fetch demo_parse demo_wallets paywall_payment)

text \<open>
  C2, as stated, fails: on a challenge that leads to a retry, the value of the \<open>X-Payment\<close>
  header of the retried request is not the token that createX402Payment returned as
  \<open>paymentHeader\<close>; it is the JSON text of the whole result, which contains that token.
\<close>

theorem payment_header_is_not_the_token:
  "createX402Payment demo_world demo_requirements ''0xabc'' =
     (Inr (demo_header, demo_info),
      [Request Eth_chainId,
       Request (Eth_signTypedData_v4 ''0xabc'' (stringify (typedData demo_world base_option ''0xabc'')))])
   \<and> snd (brokerRequestWithPayment demo_world ''/run'' demo_options) =
     [Fetch (BROKER_API_BASE demo_world @ ''/run'') (Some (firstInit demo_options)),
      Request Eth_accounts,
      Request Eth_chainId,
      Request (Eth_signTypedData_v4 ''0xabc'' (stringify (typedData demo_world base_option ''0xabc''))),
      Fetch (BROKER_API_BASE demo_world @ ''/run'')
        (Some (retryInit demo_options (stringify (paymentResult_json (demo_header, demo_info)))))]
   \<and> map_of (own_headers (retryInit demo_options (stringify (paymentResult_json (demo_header, demo_info)))))
        ''X-Payment'' = Some (stringify (paymentResult_json (demo_header, demo_info)))
   \<and> stringify (paymentResult_json (demo_header, demo_info)) \<noteq> demo_header"
proof -
  have f: "fetch demo_world 0 (BROKER_API_BASE demo_world @ ''/run'') (Some (firstInit demo_options))
      = Inr \<lparr>status = 402, body_text = stringify demo_requirements\<rparr>"
    by (rule demo_fetch)
  have "snd (brokerRequestWithPayment demo_world ''/run'' demo_options) =
     [Fetch (BROKER_API_BASE demo_world @ ''/run'') (Some (firstInit demo_options)),
      Request Eth_accounts,
      Request Eth_chainId,
      Request (Eth_signTypedData_v4 ''0xabc'' (stringify (typedData demo_world base_option ''0xabc''))),
      Fetch (BROKER_API_BASE demo_world @ ''/run'')
        (Some (retryInit demo_options (stringify (paymentResult_json (demo_header, demo_info)))))]"
    using broker_paid[OF f _ _ demo_ethereum _ demo_payment, of "[]"]
    by (simp add: demo_parse demo_wallets)
  then show ?thesis
    using demo_payment stringify_paymentResult_differs[of demo_header demo_info]
    by (simp add: retryInit_fields)
qed

text \<open>
  C2, amended. For every 402 challenge that leads to a retry, the retried request goes to
  the same address with the method and the body of the original request, and its headers
  are those of the first request with one more, \<open>X-Payment\<close>. The value of that header is
  the JSON text of the object that createX402Payment returned: its \<open>paymentHeader\<close> member
  is the base64 encoding of the signed payment JSON, beside a \<open>paymentInfo\<close> member; the
  header value is never that token alone.
\<close>

theorem retry_carries_payment_result:
  "fetch w 0 (BROKER_API_BASE w @ endpoint) (Some (firstInit options)) = Inr r
   \<and> status r = 402
   \<and> JSON_parse (body_text r) = Inr req
   \<and> ethereum w = Some eth
   \<and> eth_accounts eth = Inr (a # as)
   \<and> createX402Payment w req a = (Inr (paymentHeader, paymentInfo), cevs)
   \<longrightarrow>
     snd (brokerRequestWithPayment w endpoint options) =
       Fetch (BROKER_API_BASE w @ endpoint) (Some (firstInit options)) # Request Eth_accounts # cevs
         @ [Fetch (BROKER_API_BASE w @ endpoint)
              (Some (retryInit options (stringify (paymentResult_json (paymentHeader, paymentInfo)))))]
     \<and> http_method (retryInit options (stringify (paymentResult_json (paymentHeader, paymentInfo))))
          = http_method (firstInit options)
     \<and> body (retryInit options (stringify (paymentResult_json (paymentHeader, paymentInfo))))
          = body (firstInit options)
     \<and> http_method (firstInit options) = http_method options
     \<and> body (firstInit options) = body options
     \<and> map_of (own_headers (retryInit options (stringify (paymentResult_json (paymentHeader, paymentInfo)))))
          = (map_of (own_headers (firstInit options)))
              (''X-Payment'' \<mapsto> stringify (paymentResult_json (paymentHeader, paymentInfo)))
     \<and> js_prop (paymentResult_json (paymentHeader, paymentInfo)) ''paymentHeader'' = Some (JStr paymentHeader)
     \<and> (\<exists>opt sig. paymentHeader = base64_encode (stringify (paymentData w opt a sig)))
     \<and> stringify (paymentResult_json (paymentHeader, paymentInfo)) \<noteq> paymentHeader"
proof (intro impI, elim conjE)
  assume h: "fetch w 0 (BROKER_API_BASE w @ endpoint) (Some (firstInit options)) = Inr r"
    "status r = 402" "JSON_parse (body_text r) = Inr req" "ethereum w = Some eth"
    "eth_accounts eth = Inr (a # as)"
    "createX402Payment w req a = (Inr (paymentHeader, paymentInfo), cevs)"
  let ?X = "stringify (paymentResult_json (paymentHeader, paymentInfo))"
  have t: "snd (brokerRequestWithPayment w endpoint options) =
       Fetch (BROKER_API_BASE w @ endpoint) (Some (firstInit options)) # Request Eth_accounts # cevs
         @ [Fetch (BROKER_API_BASE w @ endpoint) (Some (retryInit options ?X))]"
    using broker_paid[OF h] by simp
  have p: "js_prop (paymentResult_json (paymentHeader, paymentInfo)) ''paymentHeader'' = Some (JStr paymentHeader)"
    by (simp add: paymentResult_json_def)
  show "snd (brokerRequestWithPayment w endpoint options) =
       Fetch (BROKER_API_BASE w @ endpoint) (Some (firstInit options)) # Request Eth_accounts # cevs
         @ [Fetch (BROKER_API_BASE w @ endpoint) (Some (retryInit options ?X))]
     \<and> http_method (retryInit options ?X) = http_method (firstInit options)
     \<and> body (retryInit options ?X) = body (firstInit options)
     \<and> http_method (firstInit options) = http_method options
     \<and> body (firstInit options) = body options
     \<and> map_of (own_headers (retryInit options ?X))
          = (map_of (own_headers (firstInit options)))(''X-Payment'' \<mapsto> ?X)
     \<and> js_prop (paymentResult_json (paymentHeader, paymentInfo)) ''paymentHeader'' = Some (JStr paymentHeader)
     \<and> (\<exists>opt sig. paymentHeader = base64_encode (stringify (paymentData w opt a sig)))
     \<and> ?X \<noteq> paymentHeader"
    using t p createX402Payment_header[OF h(6)]
      stringify_paymentResult_differs[of paymentHeader paymentInfo]
    by (simp add: retryInit_fields)
qed

text \<open>C2, amended, on the broker that answers the paid retry with the job.\<close>

theorem retry_carries_payment_result_witness:
  "fetch demo_world 0 (BROKER_API_BASE demo_world @ ''/run'') (Some (firstInit demo_options))
      = Inr \<lparr>status = 402, body_text = stringify demo_requirements\<rparr>
   \<and> JSON_parse (stringify demo_requirements) = Inr demo_requirements
   \<and> ethereum demo_world = Some demo_wallet
   \<and> eth_accounts demo_wallet = Inr [''0xabc'']
   \<and> createX402Payment demo_world demo_requirements ''0xabc'' =
       (Inr (demo_header, demo_info),
        [Request Eth_chainId,
         Request (Eth_signTypedData_v4 ''0xabc'' (stringify (typedData demo_world base_option ''0xabc'')))])
   \<and> snd (brokerRequestWithPayment demo_world ''/run'' demo_options) =
       [Fetch (BROKER_API_BASE demo_world @ ''/run'') (Some (firstInit demo_options)),
        Request Eth_accounts,
        Request Eth_chainId,
        Request (Eth_signTypedData_v4 ''0xabc'' (stringify (typedData demo_world base_option ''0xabc''))),
        Fetch (BROKER_API_BASE demo_world @ ''/run'')
          (Some (retryInit demo_options (stringify (paymentResult_json (demo_header, demo_info)))))]"
  using retry_carries_payment_result[of demo_world "''/run''" demo_options
      "\<lparr>status = 402, body_text = stringify demo_requirements\<rparr>" demo_requirements demo_wallet
      "''0xabc''" "[]" demo_header demo_info
      "[Request Eth_chainId,
        Request (Eth_signTypedData_v4 ''0xabc'' (stringify (typedData demo_world base_option ''0xabc'')))]"]
  by (simp add: demo_fetch demo_parse demo_wallets demo_ethereum demo_payment)





subsection \<open>fetchWith402\<close>



subsection \<open>Revocation\<close>

text \<open>
  C9, as stated, fails: a transaction that is never mined and a transaction that reverts
  make revokeApproval fail with one and the same error, so the two failures cannot be told
  apart by the caller.
\<close>

theorem timeout_and_revert_fail_alike:
  "revokeApproval pending_world demo_info =
     (Inl (Error ''Failed to revoke approval: Revocation transaction failed''),
      [Request Eth_requestAccounts,
       Request (Eth_sendTransaction (approveTx [''0xabc''] demo_info ''0xpayee''))]
        @ concat (replicate 30 [Request (Eth_getTransactionReceipt ''0xtx''), Sleep 2000]))
   \<and> revokeApproval reverted_world demo_info =
     (Inl (Error ''Failed to revoke approval: Revocation transaction failed''),
      [Request Eth_requestAccounts,
       Request (Eth_sendTransaction (approveTx [''0xabc''] demo_info ''0xpayee'')),
       Request (Eth_getTransactionReceipt ''0xtx'')])
   \<and> fst (revokeApproval pending_world demo_info) = fst (revokeApproval reverted_world demo_info)"
proof -
  have 1: "revokeApproval pending_world demo_info =
     (Inl RevocationFailed,
      [Request Eth_requestAccounts,
       Request (Eth_sendTransaction (approveTx [''0xabc''] demo_info ''0xpayee''))]
        @ concat (replicate 30 [Request (Eth_getTransactionReceipt ''0xtx''), Sleep 2000]))"
    using revoke_timeout[OF revoke_examples(1,3,5,6)] revoke_examples(8)
    by simp
  have 2: "revokeApproval reverted_world demo_info =
     (if Some ''0x0'' = Some ''0x0'' then Inl RevocationFailed else Inr (),
      [Request Eth_requestAccounts,
       Request (Eth_sendTransaction (approveTx [''0xabc''] demo_info ''0xpayee''))]
        @ concat (replicate 0 [Request (Eth_getTransactionReceipt ''0xtx''), Sleep 2000])
        @ [Request (Eth_getTransactionReceipt ''0xtx'')])"
    using revoke_receipt[OF revoke_examples(2,4,5,7), where k = 0 and st = "Some ''0x0''"]
      revoke_examples(9)
    by simp
  show ?thesis unfolding 1 2 by (simp add: RevocationFailed_def)
qed

text \<open>
  C9, amended. For every payment info with a string spender, revokeApproval builds the
  calldata as the selector \<open>0x095ea7b3\<close>, the spender without its \<open>0x\<close> padded with zeros on
  the left to 64 digits, and 64 zeros, and submits it to the asset contract through the
  wallet. It then asks for the receipt at most 30 times, pausing 2000 ms after every query
  that gives none. When all 30 queries give no receipt, and when a receipt arrives with
  status \<open>0x0\<close>, the call fails, both times with the same error; a receipt with any other
  status ends the call successfully.
\<close>

theorem revocation_polls_then_fails_alike:
  "approveData sp =
     ''0x095ea7b3'' @ replicate (64 - length (replace_first ''0x'' [] sp)) (CHR ''0'')
       @ replace_first ''0x'' [] sp @ replicate 64 (CHR ''0'')
   \<and> replace_first ''0x'' [] (''0x'' @ addr) = addr
   \<and> (length (replace_first ''0x'' [] sp) \<le> 64 \<longrightarrow> length (approveData sp) = 138)
   \<and> length (filter is_receipt_query (snd (revokeApproval w paymentInfo))) \<le> 30
   \<and> (\<forall>n. Sleep n \<in> set (snd (revokeApproval w paymentInfo)) \<longrightarrow> n = 2000)
   \<and> (ethereum w = Some eth \<and> eth_requestAccounts eth = Inr accounts
        \<and> spender paymentInfo = Some (JStr sp)
        \<and> eth_sendTransaction eth (approveTx accounts paymentInfo sp) = Inr txHash \<longrightarrow>
        js_prop (approveTx accounts paymentInfo sp) ''data'' = Some (JStr (approveData sp))
        \<and> js_prop (approveTx accounts paymentInfo sp) ''to'' = asset paymentInfo
        \<and> ((\<forall>n. n < 30 \<longrightarrow> no_receipt eth txHash n) \<longrightarrow>
             revokeApproval w paymentInfo =
               (Inl RevocationFailed,
                [Request Eth_requestAccounts,
                 Request (Eth_sendTransaction (approveTx accounts paymentInfo sp))]
                  @ concat (replicate 30 [Request (Eth_getTransactionReceipt txHash), Sleep 2000])))
        \<and> (k < 30 \<and> (\<forall>n. n < k \<longrightarrow> no_receipt eth txHash n)
             \<and> eth_getTransactionReceipt eth k txHash = Inr (Some (Receipt st)) \<longrightarrow>
             revokeApproval w paymentInfo =
               (if st = Some ''0x0'' then Inl RevocationFailed else Inr (),
                [Request Eth_requestAccounts,
                 Request (Eth_sendTransaction (approveTx accounts paymentInfo sp))]
                  @ concat (replicate k [Request (Eth_getTransactionReceipt txHash), Sleep 2000])
                  @ [Request (Eth_getTransactionReceipt txHash)])))
   \<and> RevocationFailed = Error ''Failed to revoke approval: Revocation transaction failed''"
proof -
  note ev = revokeApproval_events[of w paymentInfo]
  have s: "js_prop (approveTx accounts paymentInfo sp) ''data'' = Some (JStr (approveData sp))
        \<and> js_prop (approveTx accounts paymentInfo sp) ''to'' = asset paymentInfo
        \<and> ((\<forall>n. n < 30 \<longrightarrow> no_receipt eth txHash n) \<longrightarrow>
             revokeApproval w paymentInfo =
               (Inl RevocationFailed,
                [Request Eth_requestAccounts,
                 Request (Eth_sendTransaction (approveTx accounts paymentInfo sp))]
                  @ concat (replicate 30 [Request (Eth_getTransactionReceipt txHash), Sleep 2000])))
        \<and> (k < 30 \<and> (\<forall>n. n < k \<longrightarrow> no_receipt eth txHash n)
             \<and> eth_getTransactionReceipt eth k txHash = Inr (Some (Receipt st)) \<longrightarrow>
             revokeApproval w paymentInfo =
               (if st = Some ''0x0'' then Inl RevocationFailed else Inr (),
                [Request Eth_requestAccounts,
                 Request (Eth_sendTransaction (approveTx accounts paymentInfo sp))]
                  @ concat (replicate k [Request (Eth_getTransactionReceipt txHash), Sleep 2000])
                  @ [Request (Eth_getTransactionReceipt txHash)]))"
    if h: "ethereum w = Some eth" "eth_requestAccounts eth = Inr accounts"
      "spender paymentInfo = Some (JStr sp)"
      "eth_sendTransaction eth (approveTx accounts paymentInfo sp) = Inr txHash"
    using revoke_timeout[OF h] revoke_receipt[OF h, of k st]
      approveTx_fields(1,3)[of accounts paymentInfo sp]
    by blast
  show ?thesis
    using approveData_layout[of sp] replace_first_prefix[of addr] approveData_length[of sp]
      ev s RevocationFailed_def
    by blast
qed

text \<open>C9, amended, on a transaction that is never mined and on one that reverts at once.\<close>

theorem revocation_polls_then_fails_alike_witness:
  "ethereum pending_world = Some pending_wallet
   \<and> eth_requestAccounts pending_wallet = Inr [''0xabc'']
   \<and> spender demo_info = Some (JStr ''0xpayee'')
   \<and> eth_sendTransaction pending_wallet (approveTx [''0xabc''] demo_info ''0xpayee'') = Inr ''0xtx''
   \<and> no_receipt pending_wallet ''0xtx'' 29
   \<and> revokeApproval pending_world demo_info =
       (Inl RevocationFailed,
        [Request Eth_requestAccounts,
         Request (Eth_sendTransaction (approveTx [''0xabc''] demo_info ''0xpayee''))]
          @ concat (replicate 30 [Request (Eth_getTransactionReceipt ''0xtx''), Sleep 2000]))
   \<and> eth_getTransactionReceipt reverted_wallet 0 ''0xtx'' = Inr (Some (Receipt (Some ''0x0'')))
   \<and> revokeApproval reverted_world demo_info =
       (Inl RevocationFailed,
        [Request Eth_requestAccounts,
         Request (Eth_sendTransaction (approveTx [''0xabc''] demo_info ''0xpayee'')),
         Request (Eth_getTransactionReceipt ''0xtx'')])
   \<and> length (approveData ''0xpayee'') = 138"
proof -
  let ?tx = "approveTx [''0xabc''] demo_info ''0xpayee''"
  have p: "ethereum pending_world = Some pending_wallet
      \<and> eth_requestAccounts pending_wallet = Inr [''0xabc'']
      \<and> spender demo_info = Some (JStr ''0xpayee'')
      \<and> eth_sendTransaction pending_wallet ?tx = Inr ''0xtx''"
    by (simp add: revoke_examples)
  have pn: "\<forall>n. n < 30 \<longrightarrow> no_receipt pending_wallet ''0xtx'' n"
    by (simp add: revoke_examples)
  have 1: "revokeApproval pending_world demo_info =
       (Inl RevocationFailed,
        [Request Eth_requestAccounts, Request (Eth_sendTransaction ?tx)]
          @ concat (replicate 30 [Request (Eth_getTransactionReceipt ''0xtx''), Sleep 2000]))"
    using revocation_polls_then_fails_alike[where w = pending_world and eth = pending_wallet
        and paymentInfo = demo_info and accounts = "[''0xabc'']" and sp = "''0xpayee''"
        and txHash = "''0xtx''"]
      p pn
    by blast
  have r: "ethereum reverted_world = Some reverted_wallet
      \<and> eth_requestAccounts reverted_wallet = Inr [''0xabc'']
      \<and> spender demo_info = Some (JStr ''0xpayee'')
      \<and> eth_sendTransaction reverted_wallet ?tx = Inr ''0xtx''"
    by (simp add: revoke_examples)
  have rk: "(0::nat) < 30 \<and> (\<forall>n. n < (0::nat) \<longrightarrow> no_receipt reverted_wallet ''0xtx'' n)
      \<and> eth_getTransactionReceipt reverted_wallet 0 ''0xtx'' = Inr (Some (Receipt (Some ''0x0'')))"
    by (simp add: revoke_examples)
  have "revokeApproval reverted_world demo_info =
       (if Some ''0x0'' = Some ''0x0'' then Inl RevocationFailed else Inr (),
        [Request Eth_requestAccounts, Request (Eth_sendTransaction ?tx)]
          @ concat (replicate 0 [Request (Eth_getTransactionReceipt ''0xtx''), Sleep 2000])
          @ [Request (Eth_getTransactionReceipt ''0xtx'')])"
    using revocation_polls_then_fails_alike[where w = reverted_world and eth = reverted_wallet
        and paymentInfo = demo_info and accounts = "[''0xabc'']" and sp = "''0xpayee''"
        and txHash = "''0xtx''" and k = 0 and st = "Some ''0x0''"]
      r rk
    by blast
  then have 2: "revokeApproval reverted_world demo_info =
       (Inl RevocationFailed,
        [Request Eth_requestAccounts, Request (Eth_sendTransaction ?tx),
         Request (Eth_getTransactionReceipt ''0xtx'')])"
    by simp
  have 3: "length (approveData ''0xpayee'') = 138"
    using revocation_polls_then_fails_alike[where sp = "''0xpayee''"] by simp
  show ?thesis using 1 2 3 p rk by (simp add: revoke_examples)
qed

end
